theory Spec2Isabelle
  imports Main "HOL-Library.Sublist"
begin

section \<open>Python errors\<close>

text \<open>
  Every exception the modelled code can raise is a value of this type; a function that can
  raise returns \<open>error + 'a\<close>, with \<open>Inl\<close> for the exception.
\<close>

datatype error =
    ValueError
  | IndexError
  | KeyError
  | TypeError
  | ZeroDivisionError
  | RuntimeError
  | FileNotFoundError
  | InvalidCheckpointDir
  | ExternalError
  | AttributeError
  | AssertionError

section \<open>Standard trainer: \<open>finetune/adapter.py\<close>\<close>

subsection \<open>Training examples\<close>

text \<open>
  An element of \<open>train_data\<close>: a dict with the token sequence \<open>input_ids\<close> and the label
  sequence \<open>labels\<close>, each a one-dimensional integer tensor.
\<close>

record example =
  input_ids :: "int list"
  labels :: "int list"

subsection \<open>\<open>get_longest_seq_length\<close>\<close>

text \<open>Python's \<open>max\<close> of a list: \<open>ValueError\<close> on the empty list.\<close>

definition py_max :: "nat list \<Rightarrow> error + nat" where
  "py_max xs = (case xs of [] \<Rightarrow> Inl ValueError | y # ys \<Rightarrow> Inr (fold max ys y))"

text \<open>Python's \<open>list.index\<close>: the first position holding the value, \<open>ValueError\<close> if none.\<close>

fun list_index :: "'a list \<Rightarrow> 'a \<Rightarrow> error + nat" where
  "list_index [] v = Inl ValueError"
| "list_index (x # xs) v =
     (if x = v then Inr 0
      else (case list_index xs v of Inl e \<Rightarrow> Inl e | Inr i \<Rightarrow> Inr (Suc i)))"

definition get_longest_seq_length :: "example list \<Rightarrow> error + (nat \<times> nat)" where
  "get_longest_seq_length data =
     (let lengths = map (\<lambda>d. length (input_ids d)) data in
      case py_max lengths of
        Inl e \<Rightarrow> Inl e
      | Inr longest_seq_length \<Rightarrow>
          (case list_index lengths longest_seq_length of
             Inl e \<Rightarrow> Inl e
           | Inr longest_seq_ix \<Rightarrow> Inr (longest_seq_length, longest_seq_ix)))"

section \<open>Adapter-v2 utilities: \<open>lit_parrot/adapter_v2.py\<close>\<close>

text \<open>
  A model is seen through \<open>model.named_parameters()\<close>: the list of its parameters with their
  names. A parameter carries the flag \<open>requires_grad\<close> and its tensor; the tensor's type is
  left open. Assigning \<open>param.requires_grad\<close> in place is the update of that field.
\<close>

record 'a parameter =
  requires_grad :: bool
  tensor :: 'a

text \<open>Python's \<open>s in name\<close> on strings: \<open>s\<close> occurs in \<open>name\<close> as a contiguous substring.\<close>

definition str_in :: "string \<Rightarrow> string \<Rightarrow> bool" where
  "str_in s name = sublist s name"

text \<open>\<open>any(s in name for s in substrings)\<close>.\<close>

definition any_in :: "string list \<Rightarrow> string \<Rightarrow> bool" where
  "any_in substrings name = list_ex (\<lambda>s. str_in s name) substrings"

text \<open>The tuple \<open>substrings\<close> of \<open>mark_only_adapter_v2_as_trainable\<close>.\<close>

definition substrings_trainable :: "string list" where
  "substrings_trainable =
     [''adapter_wte'', ''gating_factor'', ''adapter_scale'', ''adapter_bias'',
      ''norm_1'', ''norm_2'', ''ln_f'']"

definition mark_only_adapter_v2_as_trainable ::
    "(string \<times> 'a parameter) list \<Rightarrow> (string \<times> 'a parameter) list" where
  "mark_only_adapter_v2_as_trainable model =
     map (\<lambda>(name, param).
            (name, param\<lparr>requires_grad := any_in substrings_trainable name\<rparr>))
         model"

text \<open>The tuple \<open>substrings\<close> of \<open>adapter_v2_state_from_state_dict\<close>.\<close>

definition substrings_state :: "string list" where
  "substrings_state = [''adapter_wte'', ''gating_factor'', ''adapter_scale'', ''adapter_bias'']"

text \<open>
  A \<open>state_dict\<close> is a Python dict, kept in insertion order: the list of its items. The dict
  comprehension goes through the items in order and keeps those whose name matches.
\<close>

definition adapter_v2_state_from_state_dict :: "(string \<times> 'v) list \<Rightarrow> (string \<times> 'v) list" where
  "adapter_v2_state_from_state_dict state_dict =
     filter (\<lambda>(name, param). any_in substrings_state name) state_dict"

subsection \<open>\<open>adapter_v2_linear_with_bias_and_scale\<close>\<close>

text \<open>
  A \<open>torch.nn.Linear\<close> layer: the weight matrix as the list of its rows (\<open>weight.shape[0]\<close>
  is the number of rows, the output width), the optional bias, the two attributes the
  function attaches (absent until then) and which function the layer's \<open>forward\<close> is bound to.
  Tensor elements are taken in a semiring with exact arithmetic; rounding is not modelled.
\<close>

datatype forward_method = Linear_forward | Adapter_v2_new_forward

record 'a linear_layer =
  weight :: "'a list list"
  bias :: "'a list option"
  adapter_bias :: "'a list parameter option"
  adapter_scale :: "'a list parameter option"
  forward :: forward_method

text \<open>The inner product of an input row with a weight row.\<close>

definition dot :: "'a::semiring_1 list \<Rightarrow> 'a list \<Rightarrow> 'a" where
  "dot xs ys = sum_list (map2 (*) xs ys)"

text \<open>
  An elementwise operation on one-dimensional tensors with PyTorch's broadcasting: equal
  sizes, or one of the sizes is 1; any other pair of sizes raises \<open>RuntimeError\<close>.
\<close>

definition broadcast :: "('a \<Rightarrow> 'a \<Rightarrow> 'a) \<Rightarrow> 'a list \<Rightarrow> 'a list \<Rightarrow> error + 'a list" where
  "broadcast f xs ys =
     (if length xs = length ys then Inr (map2 f xs ys)
      else if length xs = 1 then Inr (map (f (hd xs)) ys)
      else if length ys = 1 then Inr (map (\<lambda>x. f x (hd ys)) xs)
      else Inl RuntimeError)"

text \<open>
  \<open>F.linear(input, weight, bias)\<close> on a one-dimensional input: \<open>input @ weight.T + bias\<close>,
  \<open>RuntimeError\<close> when the shapes do not fit.
\<close>

definition F_linear :: "'a::semiring_1 list \<Rightarrow> 'a list list \<Rightarrow> 'a list option \<Rightarrow> error + 'a list" where
  "F_linear input w b =
     (if list_ex (\<lambda>row. length row \<noteq> length input) w then Inl RuntimeError
      else (case b of
              None \<Rightarrow> Inr (map (dot input) w)
            | Some bv \<Rightarrow>
                (if length bv \<noteq> length w then Inl RuntimeError
                 else Inr (map2 (+) (map (dot input) w) bv))))"

definition adapter_v2_new_forward :: "'a::semiring_1 linear_layer \<Rightarrow> 'a list \<Rightarrow> error + 'a list" where
  "adapter_v2_new_forward self input =
     (case adapter_scale self of
        None \<Rightarrow> Inl AttributeError
      | Some scale \<Rightarrow>
          (case F_linear input (weight self) (bias self) of
             Inl e \<Rightarrow> Inl e
           | Inr y \<Rightarrow>
               (case adapter_bias self of
                  None \<Rightarrow> Inl AttributeError
                | Some ab \<Rightarrow>
                    (case broadcast (+) y (tensor ab) of
                       Inl e \<Rightarrow> Inl e
                     | Inr z \<Rightarrow> broadcast (*) (tensor scale) z))))"

text \<open>Calling the layer runs whichever function \<open>forward\<close> is bound to.\<close>

definition call_layer :: "'a::semiring_1 linear_layer \<Rightarrow> 'a list \<Rightarrow> error + 'a list" where
  "call_layer layer input =
     (case forward layer of
        Linear_forward \<Rightarrow> F_linear input (weight layer) (bias layer)
      | Adapter_v2_new_forward \<Rightarrow> adapter_v2_new_forward layer input)"

definition adapter_v2_linear_with_bias_and_scale :: "'a::semiring_1 linear_layer \<Rightarrow> 'a linear_layer" where
  "adapter_v2_linear_with_bias_and_scale layer =
     layer\<lparr>adapter_bias :=
              Some \<lparr>requires_grad = True, tensor = replicate (length (weight layer)) 0\<rparr>,
           adapter_scale :=
              Some \<lparr>requires_grad = True, tensor = replicate (length (weight layer)) 1\<rparr>,
           forward := Adapter_v2_new_forward\<rparr>"

section \<open>Standard trainer: batching (\<open>finetune/adapter.py\<close>)\<close>

subsection \<open>\<open>get_batch\<close>\<close>

text \<open>A list comprehension whose body can raise: the first exception ends it.\<close>

fun map_err :: "('a \<Rightarrow> error + 'b) \<Rightarrow> 'a list \<Rightarrow> error + 'b list" where
  "map_err f [] = Inr []"
| "map_err f (x # xs) =
     (case f x of
        Inl e \<Rightarrow> Inl e
      | Inr y \<Rightarrow> (case map_err f xs of Inl e \<Rightarrow> Inl e | Inr ys \<Rightarrow> Inr (y # ys)))"

text \<open>\<open>xs[i]\<close> for a non-negative index: \<open>IndexError\<close> out of range.\<close>

definition getitem :: "'a list \<Rightarrow> nat \<Rightarrow> error + 'a" where
  "getitem xs i = (if i < length xs then Inr (xs ! i) else Inl IndexError)"

text \<open>\<open>ix[0] = v\<close>: \<open>IndexError\<close> on a tensor with no element.\<close>

definition set_first :: "'a list \<Rightarrow> 'a \<Rightarrow> error + 'a list" where
  "set_first xs v = (case xs of [] \<Rightarrow> Inl IndexError | _ # rest \<Rightarrow> Inr (v # rest))"

text \<open>
  The slice \<open>x[:, :m]\<close> applied to one row: Python clips a non-negative stop to the row's
  length and counts a negative stop from the end, never below 0.
\<close>

definition slice_stop :: "int \<Rightarrow> nat \<Rightarrow> nat" where
  "slice_stop m n = (if 0 \<le> m then min (nat m) n else n - nat (- m))"

definition slice_to :: "int \<Rightarrow> 'a list \<Rightarrow> 'a list" where
  "slice_to m xs = take (slice_stop m (length xs)) xs"

text \<open>
  The local function \<open>pad_right\<close>, with the \<open>max_len\<close> it closes over as an argument:
  \<open>torch.full((n,), pad_id)\<close> raises \<open>RuntimeError\<close> for a negative size.
\<close>

definition pad_right :: "nat \<Rightarrow> int list \<Rightarrow> int \<Rightarrow> error + int list" where
  "pad_right max_len x pad_id =
     (let n = int max_len - int (length x) in
      if n < 0 then Inl RuntimeError else Inr (x @ replicate (nat n) pad_id))"

text \<open>
  \<open>get_batch\<close>. The argument \<open>randint\<close> is the tensor that
  \<open>torch.randint(len(data), (micro_batch_size,))\<close> returned: \<open>micro_batch_size\<close> indices below
  \<open>len(data)\<close>; the call itself raises \<open>RuntimeError\<close> for an empty \<open>data\<close> or a negative
  size. The test \<open>if max_seq_length:\<close> is false for \<open>None\<close> and for 0. Moving the two tensors
  to the device does not change their values and is left out, as is the \<open>fabric\<close> argument.
\<close>

definition get_batch ::
    "example list \<Rightarrow> int \<Rightarrow> int option \<Rightarrow> nat option \<Rightarrow> nat list
       \<Rightarrow> error + (int list list \<times> int list list)" where
  "get_batch data micro_batch_size max_seq_length longest_seq_ix randint =
     (if length data = 0 \<or> micro_batch_size < 0 then Inl RuntimeError
      else
        case (case longest_seq_ix of None \<Rightarrow> Inr randint | Some l \<Rightarrow> set_first randint l) of
          Inl e \<Rightarrow> Inl e
        | Inr ix \<Rightarrow>
        case map_err (getitem data) ix of
          Inl e \<Rightarrow> Inl e
        | Inr rows \<Rightarrow>
        case py_max (map (\<lambda>d. length (input_ids d)) rows) of
          Inl e \<Rightarrow> Inl e
        | Inr max_len \<Rightarrow>
        case map_err (\<lambda>d. pad_right max_len (input_ids d) 0) rows of
          Inl e \<Rightarrow> Inl e
        | Inr x \<Rightarrow>
        case map_err (\<lambda>d. pad_right max_len (labels d) (- 1)) rows of
          Inl e \<Rightarrow> Inl e
        | Inr y \<Rightarrow>
            (case max_seq_length of
               None \<Rightarrow> Inr (x, y)
             | Some m \<Rightarrow>
                 (if m = 0 then Inr (x, y)
                  else Inr (map (slice_to m) x, map (slice_to m) y))))"

text \<open>The index of the example in row \<open>k\<close> of a batch: \<open>longest_seq_ix\<close> replaces the first
  sampled index when it is given.\<close>

definition slot_index :: "nat option \<Rightarrow> nat list \<Rightarrow> nat \<Rightarrow> nat" where
  "slot_index longest_seq_ix randint k =
     (case longest_seq_ix of
        None \<Rightarrow> randint ! k
      | Some l \<Rightarrow> if k = 0 then l else randint ! k)"

section \<open>Standard trainer: the training loop (\<open>finetune/adapter.py\<close>)\<close>

text \<open>
  What an iteration does to the optimizer, the schedule and the other collaborators is
  recorded as the list of the calls it makes, in order. The tensors, the loss and the clock
  are not modelled. \<open>Get_batch b\<close> is the call of \<open>get_batch\<close>, with \<open>b\<close> true when
  \<open>longest_seq_ix\<close> is passed; \<open>No_backward_sync b\<close> is entering
  \<open>fabric.no_backward_sync(model, enabled=b)\<close>.
\<close>

datatype event =
    Get_batch bool
  | Set_lr
  | No_backward_sync bool
  | Forward
  | Backward
  | Mark_step
  | Optimizer_step
  | Optimizer_zero_grad
  | Scheduler_step
  | Log_iteration
  | Validate
  | Barrier
  | Save_checkpoint int

text \<open>Python's \<open>//\<close> and \<open>%\<close> on integers: floor division, \<open>ZeroDivisionError\<close> for a zero divisor.\<close>

definition py_floordiv :: "int \<Rightarrow> int \<Rightarrow> error + int" where
  "py_floordiv a b = (if b = 0 then Inl ZeroDivisionError else Inr (a div b))"

definition py_mod :: "int \<Rightarrow> int \<Rightarrow> error + int" where
  "py_mod a b = (if b = 0 then Inl ZeroDivisionError else Inr (a mod b))"

text \<open>
  Modelled from the spec: \<open>TrainArgs.gradient_accumulation_iters(devices)\<close> of
  \<open>lit_gpt/args.py\<close>, which is not among the sources. Section 4.4 of the specification:
  \<open>gradient_accumulation_steps = global_batch_size / (micro_batch_size * device_count)\<close>.
\<close>

definition train_args_gradient_accumulation_iters :: "int \<Rightarrow> int \<Rightarrow> int \<Rightarrow> error + int" where
  "train_args_gradient_accumulation_iters global_batch_size micro_batch_size devices =
     py_floordiv global_batch_size (micro_batch_size * devices)"

text \<open>
  The body of the loop of \<open>train\<close> for one \<open>iter_num\<close>. The result is the list of calls made,
  the step counter after the iteration and the exception that ended the iteration, if any:
  what was done before a raise stays done. The tests \<open>not is_accumulating and step_count %
  interval == 0\<close> evaluate the remainder only on a non-accumulating iteration.
\<close>

definition train_iteration ::
    "int \<Rightarrow> int \<Rightarrow> int \<Rightarrow> int \<Rightarrow> int \<Rightarrow> int \<Rightarrow> int \<Rightarrow> int
       \<Rightarrow> event list \<times> int \<times> error option" where
  "train_iteration global_batch_size micro_batch_size devices log_interval eval_interval
       save_interval step_count iter_num =
     (let ev1 = [Get_batch (iter_num = 1)] in
      case train_args_gradient_accumulation_iters global_batch_size micro_batch_size devices of
        Inl e \<Rightarrow> (ev1, step_count, Some e)
      | Inr g \<Rightarrow>
      case py_mod iter_num g of
        Inl e \<Rightarrow> (ev1, step_count, Some e)
      | Inr r \<Rightarrow>
      let is_accumulating = (r \<noteq> 0);
          ev2 = ev1 @ [No_backward_sync is_accumulating, Forward, Backward];
          ev3 = (if \<not> is_accumulating
                 then ev2 @ [Optimizer_step, Optimizer_zero_grad, Scheduler_step]
                 else ev2);
          step_count = (if \<not> is_accumulating then step_count + 1 else step_count)
      in
      case py_mod iter_num log_interval of
        Inl e \<Rightarrow> (ev3, step_count, Some e)
      | Inr rl \<Rightarrow>
      let ev4 = (if rl = 0 then ev3 @ [Log_iteration] else ev3) in
      case (if is_accumulating then Inr 1 else py_mod step_count eval_interval) of
        Inl e \<Rightarrow> (ev4, step_count, Some e)
      | Inr re \<Rightarrow>
      let ev5 = (if \<not> is_accumulating \<and> re = 0 then ev4 @ [Validate, Barrier] else ev4) in
      case (if is_accumulating then Inr 1 else py_mod step_count save_interval) of
        Inl e \<Rightarrow> (ev5, step_count, Some e)
      | Inr rs \<Rightarrow>
      let ev6 = (if \<not> is_accumulating \<and> rs = 0 then ev5 @ [Save_checkpoint iter_num] else ev5)
      in (ev6, step_count, None))"

text \<open>The \<open>for\<close> loop over the iteration numbers: an exception ends it.\<close>

fun train_loop ::
    "int \<Rightarrow> int \<Rightarrow> int \<Rightarrow> int \<Rightarrow> int \<Rightarrow> int \<Rightarrow> int \<Rightarrow> int list
       \<Rightarrow> event list \<times> int \<times> error option" where
  "train_loop global_batch_size micro_batch_size devices log_interval eval_interval
       save_interval step_count [] = ([], step_count, None)"
| "train_loop global_batch_size micro_batch_size devices log_interval eval_interval
       save_interval step_count (iter_num # rest) =
     (case train_iteration global_batch_size micro_batch_size devices log_interval
             eval_interval save_interval step_count iter_num of
        (ev, step_count', Some e) \<Rightarrow> (ev, step_count', Some e)
      | (ev, step_count', None) \<Rightarrow>
          (case train_loop global_batch_size micro_batch_size devices log_interval
                  eval_interval save_interval step_count' rest of
             (ev', result) \<Rightarrow> (ev @ ev', result)))"

text \<open>
  \<open>train\<close>: the sanity-check validation, then the loop over \<open>range(1, max_iters + 1)\<close>, where
  \<open>max_iters\<close> stands for the value of \<open>train_args.max_iters(devices)\<close>.
\<close>

definition train ::
    "int \<Rightarrow> int \<Rightarrow> int \<Rightarrow> int \<Rightarrow> int \<Rightarrow> int \<Rightarrow> int
       \<Rightarrow> event list \<times> int \<times> error option" where
  "train global_batch_size micro_batch_size devices log_interval eval_interval
       save_interval max_iters =
     (case train_loop global_batch_size micro_batch_size devices log_interval eval_interval
             save_interval 0 [1..max_iters] of
        (ev, result) \<Rightarrow> (Validate # ev, result))"

section \<open>Accelerator-backend trainer: \<open>xla/finetune/adapter.py\<close>\<close>

text \<open>
  The module-level names that are computed when the module is loaded. \<open>devices\<close> is what
  \<open>XLAAccelerator.auto_device_count()\<close> returned.
\<close>

record xla_globals =
  xla_eval_interval :: int
  xla_save_interval :: int
  xla_log_interval :: int
  xla_batch_size :: int
  xla_micro_batch_size :: int
  xla_gradient_accumulation_iters :: int
  xla_epoch_size :: int
  xla_num_epochs :: int
  xla_max_iters :: int
  xla_warmup_steps :: int

text \<open>
  Loading the module: the assignments at its top, in order, with the \<open>assert\<close> and the
  divisions that can raise.
\<close>

definition xla_module :: "int \<Rightarrow> error + xla_globals" where
  "xla_module devices =
     (let eval_interval = 200; save_interval = 200; log_interval = 1;
          batch_size = 1; micro_batch_size = 1
      in
      case py_floordiv batch_size micro_batch_size of
        Inl e \<Rightarrow> Inl e
      | Inr gradient_accumulation_iters \<Rightarrow>
      if \<not> gradient_accumulation_iters > 0 then Inl AssertionError
      else
      let epoch_size = 50000; num_epochs = 5 in
      case py_floordiv epoch_size micro_batch_size of
        Inl e \<Rightarrow> Inl e
      | Inr per_epoch \<Rightarrow>
      case py_floordiv (num_epochs * per_epoch) devices of
        Inl e \<Rightarrow> Inl e
      | Inr max_iters \<Rightarrow>
      case py_floordiv (2 * per_epoch) devices of
        Inl e \<Rightarrow> Inl e
      | Inr w \<Rightarrow>
      case py_floordiv w gradient_accumulation_iters of
        Inl e \<Rightarrow> Inl e
      | Inr warmup_steps \<Rightarrow>
          Inr \<lparr>xla_eval_interval = eval_interval, xla_save_interval = save_interval,
               xla_log_interval = log_interval, xla_batch_size = batch_size,
               xla_micro_batch_size = micro_batch_size,
               xla_gradient_accumulation_iters = gradient_accumulation_iters,
               xla_epoch_size = epoch_size, xla_num_epochs = num_epochs,
               xla_max_iters = max_iters, xla_warmup_steps = warmup_steps\<rparr>)"

text \<open>
  The body of the loop of \<open>train\<close> for one \<open>iter_num\<close> (counted from 0), reading the module's
  globals. The warmup computes \<open>learning_rate * step_count / warmup_steps\<close>, which raises
  \<open>ZeroDivisionError\<close> when \<open>warmup_steps\<close> is 0.
\<close>

definition xla_train_iteration ::
    "xla_globals \<Rightarrow> int \<Rightarrow> int \<Rightarrow> event list \<times> int \<times> error option" where
  "xla_train_iteration G step_count iter_num =
     (case (if step_count \<le> xla_warmup_steps G
            then (if xla_warmup_steps G = 0 then Inl ZeroDivisionError else Inr [Set_lr])
            else Inr []) of
        Inl e \<Rightarrow> ([], step_count, Some e)
      | Inr ev0 \<Rightarrow>
      let ev1 = ev0 @ [Get_batch (iter_num = 0)] in
      case py_mod (iter_num + 1) (xla_gradient_accumulation_iters G) of
        Inl e \<Rightarrow> (ev1, step_count, Some e)
      | Inr r \<Rightarrow>
      let is_accumulating = (r \<noteq> 0);
          ev2 = ev1 @ [No_backward_sync is_accumulating, Forward, Mark_step, Backward, Mark_step];
          ev3 = (if \<not> is_accumulating then ev2 @ [Optimizer_step, Optimizer_zero_grad]
                 else ev2 @ [Mark_step]);
          step_count = (if \<not> is_accumulating then step_count + 1 else step_count)
      in
      case py_mod iter_num (xla_log_interval G) of
        Inl e \<Rightarrow> (ev3, step_count, Some e)
      | Inr rl \<Rightarrow>
      let ev4 = (if rl = 0 then ev3 @ [Log_iteration] else ev3) in
      case (if is_accumulating then Inr 1 else py_mod step_count (xla_eval_interval G)) of
        Inl e \<Rightarrow> (ev4, step_count, Some e)
      | Inr re \<Rightarrow>
      let ev5 = (if \<not> is_accumulating \<and> re = 0 then ev4 @ [Validate, Barrier] else ev4) in
      case (if is_accumulating then Inr 1 else py_mod step_count (xla_save_interval G)) of
        Inl e \<Rightarrow> (ev5, step_count, Some e)
      | Inr rs \<Rightarrow>
      let ev6 = (if \<not> is_accumulating \<and> rs = 0 then ev5 @ [Save_checkpoint iter_num] else ev5)
      in (ev6, step_count, None))"

text \<open>The loop over \<open>range(max_iters)\<close>, after the first \<open>xm.mark_step()\<close>.\<close>

fun xla_train_loop :: "xla_globals \<Rightarrow> int \<Rightarrow> int list \<Rightarrow> event list \<times> int \<times> error option" where
  "xla_train_loop G step_count [] = ([], step_count, None)"
| "xla_train_loop G step_count (iter_num # rest) =
     (case xla_train_iteration G step_count iter_num of
        (ev, step_count', Some e) \<Rightarrow> (ev, step_count', Some e)
      | (ev, step_count', None) \<Rightarrow>
          (case xla_train_loop G step_count' rest of (ev', result) \<Rightarrow> (ev @ ev', result)))"

definition xla_train :: "xla_globals \<Rightarrow> event list \<times> int \<times> error option" where
  "xla_train G =
     (case xla_train_loop G 0 [0..xla_max_iters G - 1] of
        (ev, result) \<Rightarrow> (Mark_step # ev, result))"

section \<open>Generation CLI: \<open>generate_adapter.py\<close>\<close>

text \<open>
  The last step of \<open>main\<close>: \<open>output.split("### Response:")[1].strip()\<close>. A Python string is
  a list of characters; the characters of the model are the code points below 256.

  \<open>str.split(sep)\<close> for a non-empty separator scans from the left and cuts at every
  occurrence that does not overlap the one before.
\<close>

function split_sep :: "'a list \<Rightarrow> 'a list \<Rightarrow> 'a list list" where
  "split_sep sep [] = [[]]"
| "split_sep sep (c # cs) =
     (if sep \<noteq> [] \<and> prefix sep (c # cs)
      then [] # split_sep sep (drop (length sep) (c # cs))
      else (case split_sep sep cs of
              [] \<Rightarrow> [[c]]
            | part # parts \<Rightarrow> (c # part) # parts))"
  by pat_completeness auto
termination
  by (relation "measure (\<lambda>(sep, s). length s)") (auto intro!: diff_less)

text \<open>\<open>s.split(sep)\<close>: \<open>ValueError\<close> for an empty separator.\<close>

definition py_split :: "string \<Rightarrow> string \<Rightarrow> error + string list" where
  "py_split s sep = (if sep = [] then Inl ValueError else Inr (split_sep sep s))"

text \<open>
  \<open>str.isspace\<close> of one character, on the code points below 256: tab, line feed, vertical
  tab, form feed, carriage return, the four separators 28 to 31, space, next line (133) and
  no-break space (160). \<open>s.strip()\<close> drops such characters from both ends.
\<close>

definition py_isspace :: "char \<Rightarrow> bool" where
  "py_isspace c = (of_char c \<in> set [9, 10, 11, 12, 13, 28, 29, 30, 31, 32, 133, 160 :: nat])"

definition py_strip :: "string \<Rightarrow> string" where
  "py_strip s = rev (dropWhile py_isspace (rev (dropWhile py_isspace s)))"

definition response_marker :: string where
  "response_marker = ''### Response:''"

text \<open>The extraction: split at the marker, take the part at index 1, strip it.\<close>

definition extract_response :: "string \<Rightarrow> error + string" where
  "extract_response output =
     (case py_split output response_marker of
        Inl e \<Rightarrow> Inl e
      | Inr parts \<Rightarrow>
          (case getitem parts 1 of
             Inl e \<Rightarrow> Inl e
           | Inr part \<Rightarrow> Inr (py_strip part)))"

section \<open>LoRA merge: \<open>scripts/merge_lora.py\<close>\<close>

text \<open>
  The file system: which files exist and what they hold. A file is addressed by its
  directory and its name (\<open>checkpoint_dir / "lit_model.pth"\<close>); the types of directories and
  of file contents are left open. Only regular files are modelled.
\<close>

type_synonym ('d, 'c) fs = "'d \<times> string \<Rightarrow> 'c option"

definition is_file :: "('d, 'c) fs \<Rightarrow> 'd \<times> string \<Rightarrow> bool" where
  "is_file fs path = (fs path \<noteq> None)"

text \<open>
  Modelled from the spec: \<open>check_valid_checkpoint_dir\<close> of \<open>lit_gpt/utils.py\<close>, which is not
  among the sources. Section 6 of the specification: a directory is valid if and only if
  both the weights file \<open>lit_model.pth\<close> and the configuration file \<open>lit_config.json\<close> are
  present; section 7: an invalid directory is fatal.
\<close>

definition check_valid_checkpoint_dir :: "('d, 'c) fs \<Rightarrow> 'd \<Rightarrow> error + unit" where
  "check_valid_checkpoint_dir fs checkpoint_dir =
     (if is_file fs (checkpoint_dir, ''lit_model.pth'')
         \<and> is_file fs (checkpoint_dir, ''lit_config.json'')
      then Inr () else Inl InvalidCheckpointDir)"

text \<open>The values of the flat mapping in \<open>hyperparameters.yaml\<close>.\<close>

datatype yaml = YStr string | YInt int | YBool bool | YNull

text \<open>
  What \<open>merge_lora\<close> takes from libraries: the YAML parser, giving the mapping as the list
  of its items; \<open>Path(...)\<close> of a string; and the
  computation of the merged checkpoint, from the precision, the contents of
  \<open>lit_config.json\<close>, the \<open>lora_\<close> hyperparameters, the pretrained weights and the LoRA
  weights, to the serialised merged state dict (\<open>Fabric\<close>, \<open>Config.from_json\<close>, \<open>GPT\<close>,
  \<open>lazy_load\<close>, \<open>load_state_dict\<close>, \<open>merge_lora_weights\<close>, the filter on \<open>lora_filter\<close> and
  the serialisation of \<open>torch.save\<close>). It writes nothing and may fail.
\<close>

record ('d, 'c) externals =
  yaml_safe_load :: "'c \<Rightarrow> error + (string \<times> yaml) list"
  Path :: "string \<Rightarrow> 'd"
  merged_state_dict ::
    "yaml \<Rightarrow> 'c \<Rightarrow> (string \<times> yaml) list \<Rightarrow> 'c \<Rightarrow> 'c \<Rightarrow> error + 'c"

definition load_lora_metadata ::
    "('d, 'c) externals \<Rightarrow> ('d, 'c) fs \<Rightarrow> 'd \<Rightarrow> error + ((string \<times> yaml) list \<times> 'd \<times> yaml)" where
  "load_lora_metadata ext fs checkpoint_dir =
     (case fs (checkpoint_dir, ''hyperparameters.yaml'') of
        None \<Rightarrow> Inl FileNotFoundError
      | Some file \<Rightarrow>
      case yaml_safe_load ext file of
        Inl e \<Rightarrow> Inl e
      | Inr hparams \<Rightarrow>
      let lora_params = filter (\<lambda>(k, v). prefix ''lora_'' k) hparams in
      case map_of hparams ''checkpoint_dir'' of
        None \<Rightarrow> Inl KeyError
      | Some (YStr s) \<Rightarrow>
          Inr (lora_params, Path ext s,
               (case map_of hparams ''precision'' of None \<Rightarrow> YNull | Some v \<Rightarrow> v))
      | Some _ \<Rightarrow> Inl TypeError)"

text \<open>
  \<open>torch.save(obj, path)\<close> writes the file, replacing one that exists; \<open>shutil.move(src,
  dst)\<close> renames a file, replacing \<open>dst\<close> if it exists.
\<close>

definition torch_save :: "('d, 'c) fs \<Rightarrow> 'd \<times> string \<Rightarrow> 'c \<Rightarrow> ('d, 'c) fs" where
  "torch_save fs path obj = fs(path \<mapsto> obj)"

definition shutil_move :: "('d, 'c) fs \<Rightarrow> 'd \<times> string \<Rightarrow> 'd \<times> string \<Rightarrow> error + ('d, 'c) fs" where
  "shutil_move fs src dst =
     (case fs src of
        None \<Rightarrow> Inl FileNotFoundError
      | Some content \<Rightarrow> Inr (fs(src := None, dst \<mapsto> content)))"

text \<open>The lines \<open>merge_lora\<close> prints.\<close>

datatype 'd message =
    Already_merged
  | Saved_merged_weights "'d \<times> string"
  | Backup_of_lora_weights "'d \<times> string"

text \<open>
  \<open>merge_lora\<close>. The result is the exception raised, or the successive states of the file
  system (the state at the call first, the state at the return last) with the lines
  printed. No write precedes a raise, so an exception leaves the file system as it was.
\<close>

definition merge_lora ::
    "('d, 'c) externals \<Rightarrow> 'd \<Rightarrow> 'd option \<Rightarrow> string option \<Rightarrow> ('d, 'c) fs
       \<Rightarrow> error + (('d, 'c) fs list \<times> 'd message list)" where
  "merge_lora ext checkpoint_dir pretrained_checkpoint_dir precision fs =
     (case check_valid_checkpoint_dir fs checkpoint_dir of
        Inl e \<Rightarrow> Inl e
      | Inr _ \<Rightarrow>
      case (case pretrained_checkpoint_dir of
              None \<Rightarrow> Inr ()
            | Some p \<Rightarrow> check_valid_checkpoint_dir fs p) of
        Inl e \<Rightarrow> Inl e
      | Inr _ \<Rightarrow>
      if is_file fs (checkpoint_dir, ''lit_model.pth.lora'')
      then Inr ([fs], [Already_merged])
      else
      case load_lora_metadata ext fs checkpoint_dir of
        Inl e \<Rightarrow> Inl e
      | Inr (lora_params, pretrained_checkpoint_dir, lora_precision) \<Rightarrow>
      let precision = (case precision of Some p \<Rightarrow> YStr p | None \<Rightarrow> lora_precision) in
      case fs (checkpoint_dir, ''lit_config.json'') of
        None \<Rightarrow> Inl FileNotFoundError
      | Some config \<Rightarrow>
      case fs (pretrained_checkpoint_dir, ''lit_model.pth'') of
        None \<Rightarrow> Inl FileNotFoundError
      | Some pretrained_checkpoint \<Rightarrow>
      case fs (checkpoint_dir, ''lit_model.pth'') of
        None \<Rightarrow> Inl FileNotFoundError
      | Some lora_checkpoint \<Rightarrow>
      case merged_state_dict ext precision config lora_params pretrained_checkpoint
             lora_checkpoint of
        Inl e \<Rightarrow> Inl e
      | Inr state_dict \<Rightarrow>
      let fs1 = torch_save fs (checkpoint_dir, ''lit_model.pth.merged'') state_dict in
      case shutil_move fs1 (checkpoint_dir, ''lit_model.pth'')
             (checkpoint_dir, ''lit_model.pth.lora'') of
        Inl e \<Rightarrow> Inl e
      | Inr fs2 \<Rightarrow>
      case shutil_move fs2 (checkpoint_dir, ''lit_model.pth.merged'')
             (checkpoint_dir, ''lit_model.pth'') of
        Inl e \<Rightarrow> Inl e
      | Inr fs3 \<Rightarrow>
          Inr ([fs, fs1, fs2, fs3],
               [Saved_merged_weights (checkpoint_dir, ''lit_model.pth''),
                Backup_of_lora_weights (checkpoint_dir, ''lit_model.pth.lora'')]))"

text \<open>
  An example: a LoRA checkpoint directory \<open>out\<close> whose metadata names the base checkpoint
  directory \<open>base\<close>, with numbers for file contents and addition for the merge.
\<close>

definition example_externals :: "(string, nat) externals" where
  "example_externals =
     \<lparr>yaml_safe_load = (\<lambda>file. Inr [(''checkpoint_dir'', YStr ''base''), (''lora_r'', YInt 8)]),
      Path = (\<lambda>s. s),
      merged_state_dict =
        (\<lambda>precision config lora_params pretrained_checkpoint lora_checkpoint.
           Inr (pretrained_checkpoint + lora_checkpoint))\<rparr>"

definition example_fs :: "(string, nat) fs" where
  "example_fs =
     map_of [((''out'', ''lit_model.pth''), 5), ((''out'', ''lit_config.json''), 1),
             ((''out'', ''hyperparameters.yaml''), 2), ((''base'', ''lit_model.pth''), 100)]"

section \<open>Properties\<close>

subsection \<open>\<open>get_longest_seq_length\<close>\<close>

lemma py_max_Max:
  assumes "xs \<noteq> []"
  shows "py_max xs = Inr (Max (set xs))"
proof (cases xs)
  case Nil
  with assms show ?thesis by simp
next
  case (Cons y ys)
  have "fold max ys y = Max (set (y # ys))"
    by (rule Max.set_eq_fold [symmetric])
  then show ?thesis using Cons by (simp add: py_max_def)
qed

lemma list_index_first:
  "v \<in> set xs \<Longrightarrow>
   \<exists>i. list_index xs v = Inr i \<and> i < length xs \<and> xs ! i = v \<and> (\<forall>j<i. xs ! j \<noteq> v)"
proof (induction xs)
  case Nil
  then show ?case by simp
next
  case (Cons x xs)
  show ?case
  proof (cases "x = v")
    case True
    then show ?thesis by simp
  next
    case False
    with Cons.prems have "v \<in> set xs" by simp
    from Cons.IH [OF this] obtain i where
      i: "list_index xs v = Inr i" "i < length xs" "xs ! i = v" "\<forall>j<i. xs ! j \<noteq> v"
      by blast
    have "\<forall>j<Suc i. (x # xs) ! j \<noteq> v"
    proof (intro allI impI)
      fix j assume "j < Suc i"
      then show "(x # xs) ! j \<noteq> v"
        using False i(4) by (cases j) simp_all
    qed
    with False i show ?thesis by simp
  qed
qed

text \<open>
  C8. For a non-empty example collection, \<open>get_longest_seq_length\<close> returns a pair
  \<open>(length, index)\<close>: the length is the maximum \<open>input_ids\<close> length over the collection, the
  index is in range and points to an example of that length, and no example before that
  index has that length (the first index among ties).
\<close>

theorem get_longest_seq_length_first_max:
  assumes "data \<noteq> []"
  shows "\<exists>l i. get_longest_seq_length data = Inr (l, i)
           \<and> l = Max ((\<lambda>d. length (input_ids d)) ` set data)
           \<and> i < length data
           \<and> length (input_ids (data ! i)) = l
           \<and> (\<forall>j<i. length (input_ids (data ! j)) < l)"
proof -
  define lengths where "lengths = map (\<lambda>d. length (input_ids d)) data"
  define l where "l = Max (set lengths)"
  have ne: "lengths \<noteq> []" using assms by (simp add: lengths_def)
  have mx: "py_max lengths = Inr l" using ne by (simp add: py_max_Max l_def)
  have "l \<in> set lengths" unfolding l_def using ne by (intro Max_in) simp_all
  from list_index_first [OF this] obtain i where
    i: "list_index lengths l = Inr i" "i < length lengths" "lengths ! i = l"
       "\<forall>j<i. lengths ! j \<noteq> l"
    by blast
  have le: "\<And>j. j < length lengths \<Longrightarrow> lengths ! j \<le> l"
    unfolding l_def by (intro Max_ge) simp_all
  have lt: "\<forall>j<i. length (input_ids (data ! j)) < l"
  proof (intro allI impI)
    fix j assume j: "j < i"
    then have "j < length lengths" using i(2) by simp
    then have "lengths ! j \<le> l" by (rule le)
    moreover have "lengths ! j \<noteq> l" using i(4) j by simp
    ultimately have "lengths ! j < l" by simp
    then show "length (input_ids (data ! j)) < l"
      using \<open>j < length lengths\<close> by (simp add: lengths_def)
  qed
  have res: "get_longest_seq_length data = Inr (l, i)"
    using mx i(1) by (simp add: get_longest_seq_length_def lengths_def [symmetric])
  have "l = Max ((\<lambda>d. length (input_ids d)) ` set data)"
    by (simp add: l_def lengths_def)
  moreover have "i < length data" using i(2) by (simp add: lengths_def)
  moreover have "length (input_ids (data ! i)) = l"
    using i(2,3) by (simp add: lengths_def)
  ultimately show ?thesis using res lt by blast
qed

theorem get_longest_seq_length_first_max_witness:
  "[\<lparr>input_ids = [1, 2], labels = [1, 2]\<rparr>,
    \<lparr>input_ids = [3, 4, 5], labels = [3, 4, 5]\<rparr>,
    \<lparr>input_ids = [6, 7, 8], labels = [6, 7, 8]\<rparr>] \<noteq> []
   \<and> get_longest_seq_length
       [\<lparr>input_ids = [1, 2], labels = [1, 2]\<rparr>,
        \<lparr>input_ids = [3, 4, 5], labels = [3, 4, 5]\<rparr>,
        \<lparr>input_ids = [6, 7, 8], labels = [6, 7, 8]\<rparr>] = Inr (3, 1)"
proof -
  let ?data = "[\<lparr>input_ids = [1, 2], labels = [1, 2]\<rparr>,
    \<lparr>input_ids = [3, 4, 5], labels = [3, 4, 5]\<rparr>,
    \<lparr>input_ids = [6, 7, 8], labels = [6, 7, 8]\<rparr>]"
  have ne: "?data \<noteq> []" by simp
  from get_longest_seq_length_first_max [OF ne] obtain l i where
    "get_longest_seq_length ?data = Inr (l, i)" by blast
  moreover have "get_longest_seq_length ?data = Inr (3, 1)"
    by (simp add: get_longest_seq_length_def py_max_def)
  ultimately show ?thesis by simp
qed

subsection \<open>\<open>mark_only_adapter_v2_as_trainable\<close>\<close>

lemma any_in_iff: "any_in substrings name \<longleftrightarrow> (\<exists>s\<in>set substrings. sublist s name)"
  by (simp add: any_in_def str_in_def list_ex_iff)

lemma mark_names: "map fst (mark_only_adapter_v2_as_trainable model) = map fst model"
  by (induction model) (auto simp: mark_only_adapter_v2_as_trainable_def)

lemma mark_tensors:
  "map (\<lambda>(name, param). tensor param) (mark_only_adapter_v2_as_trainable model)
     = map (\<lambda>(name, param). tensor param) model"
  by (induction model) (auto simp: mark_only_adapter_v2_as_trainable_def)

lemma mark_flags:
  "(name, param) \<in> set (mark_only_adapter_v2_as_trainable model) \<Longrightarrow>
   requires_grad param \<longleftrightarrow> any_in substrings_trainable name"
  by (auto simp: mark_only_adapter_v2_as_trainable_def)

lemma mark_twice:
  "mark_only_adapter_v2_as_trainable (mark_only_adapter_v2_as_trainable model)
     = mark_only_adapter_v2_as_trainable model"
  by (induction model) (auto simp: mark_only_adapter_v2_as_trainable_def)

lemma mark_by_name:
  "map fst model' = map fst model \<Longrightarrow>
   map (\<lambda>(name, param). requires_grad param) (mark_only_adapter_v2_as_trainable model')
     = map (\<lambda>(name, param). requires_grad param) (mark_only_adapter_v2_as_trainable model)"
proof (induction model' arbitrary: model)
  case Nil
  then show ?case by (simp add: mark_only_adapter_v2_as_trainable_def)
next
  case (Cons p ps)
  then obtain q qs where m: "model = q # qs" by (cases model) auto
  with Cons.prems have eq: "fst p = fst q" "map fst ps = map fst qs" by simp_all
  from Cons.IH [OF eq(2)] m eq(1) show ?case
    by (cases p; cases q) (simp add: mark_only_adapter_v2_as_trainable_def)
qed

text \<open>
  C4. After \<open>mark_only_adapter_v2_as_trainable\<close>, the model has the same parameters under the
  same names with the same tensors, every parameter's flag is true exactly when its name
  contains one of the seven markers, running the function again changes nothing, and two
  models with the same parameter names get the same flags.
\<close>

theorem mark_only_adapter_v2_as_trainable_iff:
  "map fst (mark_only_adapter_v2_as_trainable model) = map fst model
   \<and> map (\<lambda>(name, param). tensor param) (mark_only_adapter_v2_as_trainable model)
       = map (\<lambda>(name, param). tensor param) model
   \<and> (\<forall>(name, param) \<in> set (mark_only_adapter_v2_as_trainable model).
         requires_grad param \<longleftrightarrow>
           (\<exists>s \<in> {''adapter_wte'', ''gating_factor'', ''adapter_scale'', ''adapter_bias'',
                  ''norm_1'', ''norm_2'', ''ln_f''}. sublist s name))
   \<and> mark_only_adapter_v2_as_trainable (mark_only_adapter_v2_as_trainable model)
       = mark_only_adapter_v2_as_trainable model
   \<and> (\<forall>model'. map fst model' = map fst model \<longrightarrow>
         map (\<lambda>(name, param). requires_grad param) (mark_only_adapter_v2_as_trainable model')
           = map (\<lambda>(name, param). requires_grad param)
               (mark_only_adapter_v2_as_trainable model))"
proof -
  have flags: "\<forall>(name, param) \<in> set (mark_only_adapter_v2_as_trainable model).
         requires_grad param \<longleftrightarrow>
           (\<exists>s \<in> {''adapter_wte'', ''gating_factor'', ''adapter_scale'', ''adapter_bias'',
                  ''norm_1'', ''norm_2'', ''ln_f''}. sublist s name)"
  proof (clarify)
    fix name and param :: "'a parameter"
    assume "(name, param) \<in> set (mark_only_adapter_v2_as_trainable model)"
    then have "requires_grad param \<longleftrightarrow> any_in substrings_trainable name"
      by (rule mark_flags)
    then show "requires_grad param \<longleftrightarrow>
           (\<exists>s \<in> {''adapter_wte'', ''gating_factor'', ''adapter_scale'', ''adapter_bias'',
                  ''norm_1'', ''norm_2'', ''ln_f''}. sublist s name)"
      by (simp add: any_in_iff substrings_trainable_def)
  qed
  show ?thesis
    using mark_names [of model] mark_tensors [of model] flags mark_twice [of model]
      mark_by_name [of _ model]
    by blast
qed

lemma any_in_norm_1: "any_in substrings_trainable ''h.norm_1.w''"
  by code_simp

lemma any_in_lm_head: "\<not> any_in substrings_trainable ''lm_head''"
  by code_simp

theorem mark_only_adapter_v2_as_trainable_iff_witness:
  "(''lm_head'', \<lparr>requires_grad = False, tensor = (2::int)\<rparr>)
     \<in> set (mark_only_adapter_v2_as_trainable
         [(''h.norm_1.w'', \<lparr>requires_grad = False, tensor = (1::int)\<rparr>),
          (''lm_head'', \<lparr>requires_grad = True, tensor = 2\<rparr>)])
   \<and> \<not> (\<exists>s \<in> {''adapter_wte'', ''gating_factor'', ''adapter_scale'', ''adapter_bias'',
                  ''norm_1'', ''norm_2'', ''ln_f''}. sublist s ''lm_head'')
   \<and> map fst [(''h.norm_1.w'', \<lparr>requires_grad = True, tensor = (7::int)\<rparr>),
          (''lm_head'', \<lparr>requires_grad = True, tensor = 8\<rparr>)]
      = map fst [(''h.norm_1.w'', \<lparr>requires_grad = False, tensor = (1::int)\<rparr>),
          (''lm_head'', \<lparr>requires_grad = True, tensor = 2\<rparr>)]
   \<and> map (\<lambda>(name, param). requires_grad param)
        (mark_only_adapter_v2_as_trainable
          [(''h.norm_1.w'', \<lparr>requires_grad = True, tensor = (7::int)\<rparr>),
           (''lm_head'', \<lparr>requires_grad = True, tensor = 8\<rparr>)])
      = map (\<lambda>(name, param). requires_grad param)
        (mark_only_adapter_v2_as_trainable
          [(''h.norm_1.w'', \<lparr>requires_grad = False, tensor = (1::int)\<rparr>),
           (''lm_head'', \<lparr>requires_grad = True, tensor = 2\<rparr>)])"
proof -
  let ?m = "[(''h.norm_1.w'', \<lparr>requires_grad = False, tensor = (1::int)\<rparr>),
          (''lm_head'', \<lparr>requires_grad = True, tensor = 2\<rparr>)]"
  let ?m' = "[(''h.norm_1.w'', \<lparr>requires_grad = True, tensor = (7::int)\<rparr>),
          (''lm_head'', \<lparr>requires_grad = True, tensor = 8\<rparr>)]"
  have mem: "(''lm_head'', \<lparr>requires_grad = False, tensor = (2::int)\<rparr>)
     \<in> set (mark_only_adapter_v2_as_trainable ?m)"
    unfolding mark_only_adapter_v2_as_trainable_def
    by (simp add: any_in_norm_1 any_in_lm_head)
  have names: "map fst ?m' = map fst ?m" by simp
  note main = mark_only_adapter_v2_as_trainable_iff [of ?m]
  note flags = main [THEN conjunct2, THEN conjunct2, THEN conjunct1]
  note by_name = main [THEN conjunct2, THEN conjunct2, THEN conjunct2, THEN conjunct2]
  from bspec [OF flags mem]
  have a: "\<not> (\<exists>s \<in> {''adapter_wte'', ''gating_factor'', ''adapter_scale'', ''adapter_bias'',
                  ''norm_1'', ''norm_2'', ''ln_f''}. sublist s ''lm_head'')"
    by simp
  from by_name [THEN spec, of ?m', THEN mp, OF names]
  have b: "map (\<lambda>(name, param). requires_grad param) (mark_only_adapter_v2_as_trainable ?m')
           = map (\<lambda>(name, param). requires_grad param)
               (mark_only_adapter_v2_as_trainable ?m)" .
  show ?thesis by (intro conjI mem a names b)
qed

subsection \<open>\<open>adapter_v2_state_from_state_dict\<close>\<close>

lemma any_in_state_iff:
  "any_in substrings_state name \<longleftrightarrow>
     (\<exists>s \<in> {''adapter_wte'', ''gating_factor'', ''adapter_scale'', ''adapter_bias''}.
        sublist s name)"
  by (simp add: any_in_iff substrings_state_def)

lemma state_items:
  "set (adapter_v2_state_from_state_dict state_dict)
     = {(name, param) \<in> set state_dict. any_in substrings_state name}"
  by (auto simp: adapter_v2_state_from_state_dict_def)

lemma state_keys:
  "fst ` set (adapter_v2_state_from_state_dict state_dict)
     = {name \<in> fst ` set state_dict. any_in substrings_state name}"
  by (force simp: state_items)

lemma state_map_of:
  "map_of (adapter_v2_state_from_state_dict state_dict) name
     = (if any_in substrings_state name then map_of state_dict name else None)"
  by (induction state_dict) (auto simp: adapter_v2_state_from_state_dict_def)

lemma norm_trainable:
  "\<exists>s \<in> {''norm_1'', ''norm_2'', ''ln_f''}. sublist s name \<Longrightarrow>
   any_in substrings_trainable name"
  by (auto simp: any_in_iff substrings_trainable_def)

text \<open>
  C5. The keys of the mapping returned by \<open>adapter_v2_state_from_state_dict\<close> are exactly
  the input keys whose name contains one of the four adapter markers, each kept key has its
  input value and every other name is unbound; a name that contains a normalisation marker
  and none of the four adapter markers is marked trainable by the trainability rule and is
  not a key of the returned mapping.
\<close>

theorem adapter_v2_state_from_state_dict_subset:
  "fst ` set (adapter_v2_state_from_state_dict state_dict)
     = {name \<in> fst ` set state_dict.
          \<exists>s \<in> {''adapter_wte'', ''gating_factor'', ''adapter_scale'', ''adapter_bias''}.
            sublist s name}
   \<and> (\<forall>name. map_of (adapter_v2_state_from_state_dict state_dict) name
         = (if \<exists>s \<in> {''adapter_wte'', ''gating_factor'', ''adapter_scale'', ''adapter_bias''}.
                 sublist s name
            then map_of state_dict name else None))
   \<and> (\<forall>name. (\<exists>s \<in> {''norm_1'', ''norm_2'', ''ln_f''}. sublist s name)
          \<and> \<not> (\<exists>s \<in> {''adapter_wte'', ''gating_factor'', ''adapter_scale'', ''adapter_bias''}.
                 sublist s name)
        \<longrightarrow> any_in substrings_trainable name
            \<and> name \<notin> fst ` set (adapter_v2_state_from_state_dict state_dict))"
proof -
  have a: "fst ` set (adapter_v2_state_from_state_dict state_dict)
     = {name \<in> fst ` set state_dict.
          \<exists>s \<in> {''adapter_wte'', ''gating_factor'', ''adapter_scale'', ''adapter_bias''}.
            sublist s name}"
    using state_keys [of state_dict] by (simp only: any_in_state_iff)
  have b: "\<forall>name. map_of (adapter_v2_state_from_state_dict state_dict) name
         = (if \<exists>s \<in> {''adapter_wte'', ''gating_factor'', ''adapter_scale'', ''adapter_bias''}.
                 sublist s name
            then map_of state_dict name else None)"
    using state_map_of [of state_dict] by (simp only: any_in_state_iff) simp
  have c: "\<forall>name. (\<exists>s \<in> {''norm_1'', ''norm_2'', ''ln_f''}. sublist s name)
          \<and> \<not> (\<exists>s \<in> {''adapter_wte'', ''gating_factor'', ''adapter_scale'', ''adapter_bias''}.
                 sublist s name)
        \<longrightarrow> any_in substrings_trainable name
            \<and> name \<notin> fst ` set (adapter_v2_state_from_state_dict state_dict)"
  proof (intro allI impI conjI)
    fix name
    assume h: "(\<exists>s \<in> {''norm_1'', ''norm_2'', ''ln_f''}. sublist s name)
          \<and> \<not> (\<exists>s \<in> {''adapter_wte'', ''gating_factor'', ''adapter_scale'', ''adapter_bias''}.
                 sublist s name)"
    from h show "any_in substrings_trainable name" by (intro norm_trainable) (rule conjunct1)
    from h have "\<not> any_in substrings_state name"
      unfolding any_in_state_iff by (rule conjunct2)
    then show "name \<notin> fst ` set (adapter_v2_state_from_state_dict state_dict)"
      by (simp add: state_keys)
  qed
  show ?thesis by (intro conjI a b c)
qed

lemma any_in_state_adapter_wte: "any_in substrings_state ''h.adapter_wte.w''"
  by code_simp

lemma any_in_state_norm_1: "\<not> any_in substrings_state ''h.norm_1.w''"
  by code_simp

lemma sublist_norm_1: "sublist ''norm_1'' ''h.norm_1.w''"
  by code_simp

theorem adapter_v2_state_from_state_dict_subset_witness:
  "(\<exists>s \<in> {''norm_1'', ''norm_2'', ''ln_f''}. sublist s ''h.norm_1.w'')
   \<and> \<not> (\<exists>s \<in> {''adapter_wte'', ''gating_factor'', ''adapter_scale'', ''adapter_bias''}.
          sublist s ''h.norm_1.w'')
   \<and> any_in substrings_trainable ''h.norm_1.w''
   \<and> ''h.norm_1.w'' \<notin> fst ` set (adapter_v2_state_from_state_dict
         [(''h.norm_1.w'', 1::int), (''h.adapter_wte.w'', 2), (''lm_head'', 3)])
   \<and> map_of (adapter_v2_state_from_state_dict
         [(''h.norm_1.w'', 1::int), (''h.adapter_wte.w'', 2), (''lm_head'', 3)])
        ''h.adapter_wte.w'' = Some 2"
proof -
  let ?sd = "[(''h.norm_1.w'', 1::int), (''h.adapter_wte.w'', 2), (''lm_head'', 3)]"
  have n: "\<exists>s \<in> {''norm_1'', ''norm_2'', ''ln_f''}. sublist s ''h.norm_1.w''"
    using sublist_norm_1 by simp
  have a: "\<not> (\<exists>s \<in> {''adapter_wte'', ''gating_factor'', ''adapter_scale'', ''adapter_bias''}.
          sublist s ''h.norm_1.w'')"
    using any_in_state_norm_1 unfolding any_in_state_iff .
  have w: "\<exists>s \<in> {''adapter_wte'', ''gating_factor'', ''adapter_scale'', ''adapter_bias''}.
          sublist s ''h.adapter_wte.w''"
    using any_in_state_adapter_wte unfolding any_in_state_iff .
  note main = adapter_v2_state_from_state_dict_subset [of ?sd]
  note kept = main [THEN conjunct2, THEN conjunct1, THEN spec, of "''h.adapter_wte.w''"]
  note excluded = main [THEN conjunct2, THEN conjunct2, THEN spec, of "''h.norm_1.w''",
      THEN mp, OF conjI [OF n a]]
  have v: "map_of (adapter_v2_state_from_state_dict ?sd) ''h.adapter_wte.w'' = Some 2"
    using kept w by simp
  show ?thesis
    by (intro conjI n a excluded [THEN conjunct1] excluded [THEN conjunct2] v)
qed

subsection \<open>\<open>adapter_v2_linear_with_bias_and_scale\<close>\<close>

lemma F_linear_length: "F_linear input w b = Inr y \<Longrightarrow> length y = length w"
  by (auto simp: F_linear_def split: if_splits option.splits)

lemma map2_add_zeros: "length (y :: 'a::semiring_1 list) = n \<Longrightarrow> map2 (+) y (replicate n 0) = y"
  by (induction y arbitrary: n) auto

lemma map2_mult_ones: "length (y :: 'a::semiring_1 list) = n \<Longrightarrow> map2 (*) (replicate n 1) y = y"
  by (induction y arbitrary: n) auto

lemma new_forward_wrapped:
  "adapter_v2_new_forward (adapter_v2_linear_with_bias_and_scale layer) input
     = F_linear input (weight layer) (bias layer)"
proof (cases "F_linear input (weight layer) (bias layer)")
  case (Inl e)
  then show ?thesis
    by (simp add: adapter_v2_new_forward_def adapter_v2_linear_with_bias_and_scale_def)
next
  case (Inr y)
  then have len: "length y = length (weight layer)" by (rule F_linear_length)
  then show ?thesis using Inr
    by (simp add: adapter_v2_new_forward_def adapter_v2_linear_with_bias_and_scale_def
        broadcast_def map2_add_zeros map2_mult_ones)
qed

text \<open>
  C10. After \<open>adapter_v2_linear_with_bias_and_scale\<close>, the layer's \<open>adapter_bias\<close> is a
  trainable vector of zeros and its \<open>adapter_scale\<close> a trainable vector of ones, each as long
  as the layer's output width, weight and bias are untouched, and for a layer whose forward
  was the plain linear one the wrapped layer returns on every input what the layer
  returned before (errors included).
\<close>

theorem adapter_v2_linear_with_bias_and_scale_preserves:
  "adapter_bias (adapter_v2_linear_with_bias_and_scale layer)
     = Some \<lparr>requires_grad = True, tensor = replicate (length (weight layer)) 0\<rparr>
   \<and> adapter_scale (adapter_v2_linear_with_bias_and_scale layer)
     = Some \<lparr>requires_grad = True, tensor = replicate (length (weight layer)) 1\<rparr>
   \<and> weight (adapter_v2_linear_with_bias_and_scale layer) = weight layer
   \<and> bias (adapter_v2_linear_with_bias_and_scale layer) = bias layer
   \<and> (forward layer = Linear_forward \<longrightarrow>
        (\<forall>input. call_layer (adapter_v2_linear_with_bias_and_scale layer) input
                   = call_layer layer input))"
proof -
  have fw: "forward (adapter_v2_linear_with_bias_and_scale layer) = Adapter_v2_new_forward"
    by (simp add: adapter_v2_linear_with_bias_and_scale_def)
  have "forward layer = Linear_forward \<longrightarrow>
        (\<forall>input. call_layer (adapter_v2_linear_with_bias_and_scale layer) input
                   = call_layer layer input)"
    by (simp add: call_layer_def fw new_forward_wrapped)
  then show ?thesis
    by (simp add: adapter_v2_linear_with_bias_and_scale_def)
qed


theorem adapter_v2_linear_with_bias_and_scale_preserves_witness:
  "forward \<lparr>weight = [[1, 2], [3, 4], [5, 6 :: int]], bias = Some [10, 20, 30],
            adapter_bias = None, adapter_scale = None, forward = Linear_forward\<rparr>
     = Linear_forward
   \<and> call_layer (adapter_v2_linear_with_bias_and_scale
         \<lparr>weight = [[1, 2], [3, 4], [5, 6 :: int]], bias = Some [10, 20, 30],
          adapter_bias = None, adapter_scale = None, forward = Linear_forward\<rparr>) [1, 1]
     = Inr [13, 27, 41]"
proof -
  let ?layer = "\<lparr>weight = [[1, 2], [3, 4], [5, 6 :: int]], bias = Some [10, 20, 30],
            adapter_bias = None, adapter_scale = None, forward = Linear_forward\<rparr>"
  have fw: "forward ?layer = Linear_forward" by simp
  note main = adapter_v2_linear_with_bias_and_scale_preserves [of ?layer]
  note same = main [THEN conjunct2, THEN conjunct2, THEN conjunct2, THEN conjunct2,
      THEN mp, OF fw, THEN spec, of "[1, 1]"]
  have "call_layer ?layer [1, 1] = Inr [13, 27, 41]"
    by (simp add: call_layer_def F_linear_def dot_def)
  with same show ?thesis by simp
qed

subsection \<open>\<open>get_batch\<close>\<close>

lemma map_err_Inr:
  "map_err f xs = Inr ys \<Longrightarrow>
   length ys = length xs \<and> (\<forall>k<length xs. f (xs ! k) = Inr (ys ! k))"
proof (induction xs arbitrary: ys)
  case Nil
  then show ?case by simp
next
  case (Cons a xs)
  from Cons.prems obtain b bs where
    b: "f a = Inr b" and bs: "map_err f xs = Inr bs" and ys: "ys = b # bs"
    by (auto split: sum.splits)
  from Cons.IH [OF bs] have
    len: "length bs = length xs" and nth: "\<forall>k<length xs. f (xs ! k) = Inr (bs ! k)"
    by simp_all
  have "\<forall>k<length (a # xs). f ((a # xs) ! k) = Inr (ys ! k)"
  proof (intro allI impI)
    fix k assume "k < length (a # xs)"
    then show "f ((a # xs) ! k) = Inr (ys ! k)"
      using b nth ys by (cases k) simp_all
  qed
  then show ?case using len ys by simp
qed

lemma map_err_total:
  "(\<And>a. a \<in> set xs \<Longrightarrow> \<exists>b. f a = Inr b) \<Longrightarrow> \<exists>ys. map_err f xs = Inr ys"
proof (induction xs)
  case Nil
  then show ?case by simp
next
  case (Cons a xs)
  from Cons.prems [of a] obtain b where b: "f a = Inr b" by auto
  from Cons.IH Cons.prems obtain bs where "map_err f xs = Inr bs" by auto
  with b show ?case by simp
qed

lemma pad_right_Inr:
  "pad_right max_len x pad_id = Inr r \<Longrightarrow>
   length x \<le> max_len \<and> r = x @ replicate (max_len - length x) pad_id"
  by (auto simp: pad_right_def Let_def nat_diff_distrib split: if_splits)

lemma pad_right_nth:
  assumes "pad_right max_len x pad_id = Inr r"
  shows "length r = max_len"
    and "j < max_len \<Longrightarrow> r ! j = (if j < length x then x ! j else pad_id)"
  using pad_right_Inr [OF assms] by (auto simp: nth_append)

lemma slice_stop_le: "slice_stop m n \<le> n"
  by (simp add: slice_stop_def)

lemma slice_to_length: "length (slice_to m xs) = slice_stop m (length xs)"
  by (simp add: slice_to_def slice_stop_le)

lemma slice_to_nth: "j < slice_stop m (length xs) \<Longrightarrow> slice_to m xs ! j = xs ! j"
  by (simp add: slice_to_def)

lemma slice_stop_pos: "0 < m \<Longrightarrow> int (slice_stop m n) \<le> m"
  by (simp add: slice_stop_def)


lemma set_first_Inr:
  "set_first xs v = Inr ys \<Longrightarrow>
   length ys = length xs \<and> (\<forall>k<length xs. ys ! k = (if k = 0 then v else xs ! k))"
  by (cases xs) (auto simp: set_first_def nth_Cons')

lemma get_batch_Inr_cases:
  assumes "get_batch data micro_batch_size max_seq_length longest_seq_ix randint = Inr (x, y)"
  obtains ix rows max_len x0 y0 where
    "(case longest_seq_ix of None \<Rightarrow> Inr randint | Some l \<Rightarrow> set_first randint l) = Inr ix"
    "map_err (getitem data) ix = Inr rows"
    "py_max (map (\<lambda>d. length (input_ids d)) rows) = Inr max_len"
    "map_err (\<lambda>d. pad_right max_len (input_ids d) 0) rows = Inr x0"
    "map_err (\<lambda>d. pad_right max_len (labels d) (- 1)) rows = Inr y0"
    "x = (case max_seq_length of None \<Rightarrow> x0
          | Some m \<Rightarrow> if m = 0 then x0 else map (slice_to m) x0)"
    "y = (case max_seq_length of None \<Rightarrow> y0
          | Some m \<Rightarrow> if m = 0 then y0 else map (slice_to m) y0)"
proof -
  from assms have ok: "\<not> (length data = 0 \<or> micro_batch_size < 0)"
    by (auto simp: get_batch_def)
  from assms ok obtain ix where
    ix: "(case longest_seq_ix of None \<Rightarrow> Inr randint | Some l \<Rightarrow> set_first randint l) = Inr ix"
    unfolding get_batch_def
    by (cases "(case longest_seq_ix of None \<Rightarrow> Inr randint | Some l \<Rightarrow> set_first randint l)")
       auto
  from assms ok ix obtain rows where rows: "map_err (getitem data) ix = Inr rows"
    unfolding get_batch_def by (cases "map_err (getitem data) ix") auto
  from assms ok ix rows obtain max_len where
    ml: "py_max (map (\<lambda>d. length (input_ids d)) rows) = Inr max_len"
    unfolding get_batch_def
    by (cases "py_max (map (\<lambda>d. length (input_ids d)) rows)") auto
  from assms ok ix rows ml obtain x0 where
    x0: "map_err (\<lambda>d. pad_right max_len (input_ids d) 0) rows = Inr x0"
    unfolding get_batch_def
    by (cases "map_err (\<lambda>d. pad_right max_len (input_ids d) 0) rows") auto
  from assms ok ix rows ml x0 obtain y0 where
    y0: "map_err (\<lambda>d. pad_right max_len (labels d) (- 1)) rows = Inr y0"
    unfolding get_batch_def
    by (cases "map_err (\<lambda>d. pad_right max_len (labels d) (- 1)) rows") auto
  from assms ok ix rows ml x0 y0 have
    "x = (case max_seq_length of None \<Rightarrow> x0
          | Some m \<Rightarrow> if m = 0 then x0 else map (slice_to m) x0)"
    "y = (case max_seq_length of None \<Rightarrow> y0
          | Some m \<Rightarrow> if m = 0 then y0 else map (slice_to m) y0)"
    unfolding get_batch_def by (auto split: option.splits if_splits)
  with ix rows ml x0 y0 show thesis by (rule that)
qed


lemma getitem_Inr: "getitem xs i = Inr v \<Longrightarrow> i < length xs \<and> v = xs ! i"
  by (auto simp: getitem_def split: if_splits)

text \<open>
  C6, for a positive cap. Every batch that \<open>get_batch\<close> returns has one row per sampled index; all
  input rows and all label rows have one common length \<open>L\<close>; row \<open>k\<close> holds the example's
  \<open>input_ids\<close> (its \<open>labels\<close>) at the positions below the example's length and 0 (\<open>-1\<close>) at the
  positions from there on; and when a positive cap is configured, \<open>L\<close> does not exceed it.
\<close>

theorem get_batch_rows:
  assumes "get_batch data micro_batch_size max_seq_length longest_seq_ix randint = Inr (x, y)"
  shows "\<exists>L. length x = length randint \<and> length y = length randint
    \<and> (\<forall>k<length randint. length (x ! k) = L \<and> length (y ! k) = L)
    \<and> (\<forall>c. max_seq_length = Some c \<and> 0 < c \<longrightarrow> int L \<le> c)
    \<and> (\<forall>k<length randint.
          slot_index longest_seq_ix randint k < length data
          \<and> (\<forall>j<L.
                x ! k ! j =
                  (let s = input_ids (data ! slot_index longest_seq_ix randint k)
                   in if j < length s then s ! j else 0)
              \<and> y ! k ! j =
                  (let s = labels (data ! slot_index longest_seq_ix randint k)
                   in if j < length s then s ! j else - 1)))"
proof -
  from assms obtain ix rows max_len x0 y0 where
    ix: "(case longest_seq_ix of None \<Rightarrow> Inr randint | Some l \<Rightarrow> set_first randint l) = Inr ix"
    and rows: "map_err (getitem data) ix = Inr rows"
    and ml: "py_max (map (\<lambda>d. length (input_ids d)) rows) = Inr max_len"
    and x0: "map_err (\<lambda>d. pad_right max_len (input_ids d) 0) rows = Inr x0"
    and y0: "map_err (\<lambda>d. pad_right max_len (labels d) (- 1)) rows = Inr y0"
    and x: "x = (case max_seq_length of None \<Rightarrow> x0
          | Some m \<Rightarrow> if m = 0 then x0 else map (slice_to m) x0)"
    and y: "y = (case max_seq_length of None \<Rightarrow> y0
          | Some m \<Rightarrow> if m = 0 then y0 else map (slice_to m) y0)"
    by (rule get_batch_Inr_cases)
  define n where "n = length randint"
  define L where "L = (case max_seq_length of None \<Rightarrow> max_len
          | Some m \<Rightarrow> if m = 0 then max_len else slice_stop m max_len)"
  have L_le: "L \<le> max_len"
    by (simp add: L_def slice_stop_le split: option.splits)
  have ix_len: "length ix = n"
    and ix_nth: "\<And>k. k < n \<Longrightarrow> ix ! k = slot_index longest_seq_ix randint k"
    using ix set_first_Inr [of randint _ ix]
    by (auto simp: n_def slot_index_def split: option.splits)
  from map_err_Inr [OF rows] have rows_len: "length rows = n"
    and rows_nth: "\<And>k. k < n \<Longrightarrow> getitem data (ix ! k) = Inr (rows ! k)"
    by (simp_all add: ix_len)
  have row: "\<And>k. k < n \<Longrightarrow>
      slot_index longest_seq_ix randint k < length data
      \<and> rows ! k = data ! slot_index longest_seq_ix randint k"
    using getitem_Inr [OF rows_nth] by (simp add: ix_nth)
  from map_err_Inr [OF x0] have x0_len: "length x0 = n"
    and x0_nth: "\<And>k. k < n \<Longrightarrow> pad_right max_len (input_ids (rows ! k)) 0 = Inr (x0 ! k)"
    by (simp_all add: rows_len)
  from map_err_Inr [OF y0] have y0_len: "length y0 = n"
    and y0_nth: "\<And>k. k < n \<Longrightarrow> pad_right max_len (labels (rows ! k)) (- 1) = Inr (y0 ! k)"
    by (simp_all add: rows_len)
  have x_len: "length x = n" using x x0_len by (simp split: option.splits)
  have y_len: "length y = n" using y y0_len by (simp split: option.splits)
  have xk: "length (x ! k) = L \<and> (\<forall>j<L. x ! k ! j = x0 ! k ! j)" if k: "k < n" for k
  proof -
    have "length (x0 ! k) = max_len" using pad_right_nth(1) [OF x0_nth [OF k]] .
    then show ?thesis using k x x0_len
      by (auto simp: L_def slice_to_length slice_to_nth split: option.splits)
  qed
  have yk: "length (y ! k) = L \<and> (\<forall>j<L. y ! k ! j = y0 ! k ! j)" if k: "k < n" for k
  proof -
    have "length (y0 ! k) = max_len" using pad_right_nth(1) [OF y0_nth [OF k]] .
    then show ?thesis using k y y0_len
      by (auto simp: L_def slice_to_length slice_to_nth split: option.splits)
  qed
  have cap: "\<forall>c. max_seq_length = Some c \<and> 0 < c \<longrightarrow> int L \<le> c"
    by (auto simp: L_def slice_stop_pos)
  have elems: "slot_index longest_seq_ix randint k < length data
          \<and> (\<forall>j<L.
                x ! k ! j =
                  (let s = input_ids (data ! slot_index longest_seq_ix randint k)
                   in if j < length s then s ! j else 0)
              \<and> y ! k ! j =
                  (let s = labels (data ! slot_index longest_seq_ix randint k)
                   in if j < length s then s ! j else - 1))" if k: "k < n" for k
  proof (intro conjI allI impI)
    show "slot_index longest_seq_ix randint k < length data" using row [OF k] by simp
  next
    fix j assume j: "j < L"
    then have j': "j < max_len" using L_le by simp
    have "x ! k ! j = x0 ! k ! j" using xk [OF k] j by simp
    also have "\<dots> = (if j < length (input_ids (rows ! k)) then input_ids (rows ! k) ! j else 0)"
      using pad_right_nth(2) [OF x0_nth [OF k] j'] .
    finally show "x ! k ! j =
                  (let s = input_ids (data ! slot_index longest_seq_ix randint k)
                   in if j < length s then s ! j else 0)"
      using row [OF k] by (simp add: Let_def)
  next
    fix j assume j: "j < L"
    then have j': "j < max_len" using L_le by simp
    have "y ! k ! j = y0 ! k ! j" using yk [OF k] j by simp
    also have "\<dots> = (if j < length (labels (rows ! k)) then labels (rows ! k) ! j else - 1)"
      using pad_right_nth(2) [OF y0_nth [OF k] j'] .
    finally show "y ! k ! j =
                  (let s = labels (data ! slot_index longest_seq_ix randint k)
                   in if j < length s then s ! j else - 1)"
      using row [OF k] by (simp add: Let_def)
  qed
  show ?thesis
  proof (intro exI [of _ L] conjI)
    show "length x = length randint" using x_len by (simp add: n_def)
    show "length y = length randint" using y_len by (simp add: n_def)
    show "\<forall>k<length randint. length (x ! k) = L \<and> length (y ! k) = L"
      using xk yk by (simp add: n_def)
    show "\<forall>c. max_seq_length = Some c \<and> 0 < c \<longrightarrow> int L \<le> c" by (rule cap)
    show "\<forall>k<length randint.
          slot_index longest_seq_ix randint k < length data
          \<and> (\<forall>j<L.
                x ! k ! j =
                  (let s = input_ids (data ! slot_index longest_seq_ix randint k)
                   in if j < length s then s ! j else 0)
              \<and> y ! k ! j =
                  (let s = labels (data ! slot_index longest_seq_ix randint k)
                   in if j < length s then s ! j else - 1))"
      using elems by (simp add: n_def)
  qed
qed


theorem get_batch_rows_witness:
  "get_batch [\<lparr>input_ids = [5, 6], labels = [5, 6]\<rparr>,
              \<lparr>input_ids = [7, 8, 9], labels = [- 1, 8, 9]\<rparr>] 2 (Some 2) (Some 1) [0, 0]
     = Inr ([[7, 8], [5, 6]], [[- 1, 8], [5, 6]])
   \<and> int (length ([[7, 8], [5, 6 :: int]] ! 1)) \<le> 2
   \<and> slot_index (Some 1) [0, 0] 0 < length [\<lparr>input_ids = [5, 6], labels = [5, 6]\<rparr>,
              \<lparr>input_ids = [7, 8, 9], labels = [- 1, 8, 9]\<rparr>]"
proof -
  let ?data = "[\<lparr>input_ids = [5, 6], labels = [5, 6]\<rparr>,
              \<lparr>input_ids = [7, 8, 9], labels = [- 1, 8, 9]\<rparr>]"
  let ?x = "[[7, 8], [5, 6 :: int]]"
  let ?y = "[[- 1, 8], [5, 6 :: int]]"
  have run: "get_batch ?data 2 (Some 2) (Some 1) [0, 0] = Inr (?x, ?y)"
    by code_simp
  from get_batch_rows [OF run] obtain L where
    len: "\<forall>k<length [0, 0 :: nat]. length (?x ! k) = L \<and> length (?y ! k) = L"
    and cap: "\<forall>c. Some (2 :: int) = Some c \<and> 0 < c \<longrightarrow> int L \<le> c"
    and slot: "\<forall>k<length [0, 0 :: nat]. slot_index (Some 1) [0, 0] k < length ?data
          \<and> (\<forall>j<L.
                ?x ! k ! j =
                  (let s = input_ids (?data ! slot_index (Some 1) [0, 0] k)
                   in if j < length s then s ! j else 0)
              \<and> ?y ! k ! j =
                  (let s = labels (?data ! slot_index (Some 1) [0, 0] k)
                   in if j < length s then s ! j else - 1))"
    by (elim exE conjE)
  have one: "1 < length [0, 0 :: nat]" and zero: "0 < length [0, 0 :: nat]" by simp_all
  from len [THEN spec, of 1, THEN mp, OF one] have "length (?x ! 1) = L" by (rule conjunct1)
  moreover from cap [THEN spec, of 2] have "int L \<le> 2" by simp
  ultimately have a: "int (length (?x ! 1)) \<le> 2" by simp
  from slot [THEN spec, of 0, THEN mp, OF zero]
  have b: "slot_index (Some 1) [0, 0] 0 < length ?data" by (rule conjunct1)
  show ?thesis by (intro conjI run a b)
qed

text \<open>
  C6 as stated fails for a cap that is not positive: a cap of \<open>-1\<close> cuts the last position
  off and leaves rows of length 1, a cap of 0 is treated as no cap and leaves rows of
  length 2; in both cases the rows are longer than the cap.
\<close>

theorem get_batch_cap_counterexample:
  "get_batch [\<lparr>input_ids = [5, 6], labels = [5, 6]\<rparr>] 1 (Some (- 1)) None [0]
     = Inr ([[5]], [[5]])
   \<and> \<not> int (length [5 :: int]) \<le> - 1
   \<and> get_batch [\<lparr>input_ids = [5, 6], labels = [5, 6]\<rparr>] 1 (Some 0) None [0]
     = Inr ([[5, 6]], [[5, 6]])
   \<and> \<not> int (length [5, 6 :: int]) \<le> 0"
  by code_simp

text \<open>
  \<open>get_batch\<close> does return a batch: for a non-empty collection whose examples have labels as
  long as their inputs, a non-empty sample of indices in range and a longest index in range.
\<close>

lemma get_batch_returns:
  assumes data: "data \<noteq> []" and mbs: "0 \<le> micro_batch_size"
    and sample: "randint \<noteq> []" "\<forall>i \<in> set randint. i < length data"
    and longest: "\<forall>l. longest_seq_ix = Some l \<longrightarrow> l < length data"
    and aligned: "\<forall>d \<in> set data. length (labels d) = length (input_ids d)"
  shows "\<exists>x y. get_batch data micro_batch_size max_seq_length longest_seq_ix randint = Inr (x, y)"
proof -
  obtain ix where
    ix: "(case longest_seq_ix of None \<Rightarrow> Inr randint | Some l \<Rightarrow> set_first randint l) = Inr ix"
    and ix_ne: "ix \<noteq> []" and ix_in: "\<forall>i \<in> set ix. i < length data"
    using sample longest
    by (cases longest_seq_ix; cases randint) (auto simp: set_first_def)
  have "\<exists>rows. map_err (getitem data) ix = Inr rows"
    using ix_in by (intro map_err_total) (simp add: getitem_def)
  then obtain rows where rows: "map_err (getitem data) ix = Inr rows" ..
  from map_err_Inr [OF rows] have rows_len: "length rows = length ix"
    and rows_nth: "\<forall>k<length ix. getitem data (ix ! k) = Inr (rows ! k)" by simp_all
  have rows_ne: "rows \<noteq> []" using ix_ne rows_len by auto
  have rows_in: "set rows \<subseteq> set data"
  proof
    fix d assume "d \<in> set rows"
    then obtain k where k: "k < length rows" "d = rows ! k" by (auto simp: in_set_conv_nth)
    with rows_nth rows_len have "getitem data (ix ! k) = Inr d" by simp
    from getitem_Inr [OF this] show "d \<in> set data" by simp
  qed
  define max_len where "max_len = Max (set (map (\<lambda>d. length (input_ids d)) rows))"
  have ml: "py_max (map (\<lambda>d. length (input_ids d)) rows) = Inr max_len"
    using rows_ne by (simp add: py_max_Max max_len_def)
  have le: "length (input_ids d) \<le> max_len" if "d \<in> set rows" for d
    unfolding max_len_def using that by (intro Max_ge) auto
  have "\<exists>x0. map_err (\<lambda>d. pad_right max_len (input_ids d) 0) rows = Inr x0"
  proof (intro map_err_total)
    fix d assume "d \<in> set rows"
    from le [OF this] show "\<exists>b. pad_right max_len (input_ids d) 0 = Inr b"
      by (simp add: pad_right_def Let_def)
  qed
  then obtain x0 where x0: "map_err (\<lambda>d. pad_right max_len (input_ids d) 0) rows = Inr x0" ..
  have "\<exists>y0. map_err (\<lambda>d. pad_right max_len (labels d) (- 1)) rows = Inr y0"
  proof (intro map_err_total)
    fix d assume d: "d \<in> set rows"
    then have "length (labels d) = length (input_ids d)" using aligned rows_in by auto
    with le [OF d] show "\<exists>b. pad_right max_len (labels d) (- 1) = Inr b"
      by (simp add: pad_right_def Let_def)
  qed
  then obtain y0 where y0: "map_err (\<lambda>d. pad_right max_len (labels d) (- 1)) rows = Inr y0" ..
  show ?thesis using data mbs ix rows ml x0 y0
    by (simp add: get_batch_def split: option.splits)
qed

subsection \<open>Gradient accumulation in the standard trainer\<close>

lemma train_iteration_steps:
  assumes "train_args_gradient_accumulation_iters global_batch_size micro_batch_size devices = Inr g"
    and "g \<noteq> 0"
    and "train_iteration global_batch_size micro_batch_size devices log_interval
           eval_interval save_interval step_count iter_num = (ev, step_count', err)"
  shows "No_backward_sync (iter_num mod g \<noteq> 0) \<in> set ev"
    and "count_list ev Optimizer_step = (if iter_num mod g \<noteq> 0 then 0 else 1)"
    and "count_list ev Optimizer_zero_grad = (if iter_num mod g \<noteq> 0 then 0 else 1)"
    and "count_list ev Scheduler_step = (if iter_num mod g \<noteq> 0 then 0 else 1)"
    and "step_count' = (if iter_num mod g \<noteq> 0 then step_count else step_count + 1)"
    and "log_interval \<noteq> 0 \<and> eval_interval \<noteq> 0 \<and> save_interval \<noteq> 0 \<longrightarrow> err = None"
  using assms
  by (auto simp: train_iteration_def py_mod_def Let_def split: if_splits)


lemma train_loop_steps:
  assumes g: "train_args_gradient_accumulation_iters global_batch_size micro_batch_size devices
                = Inr g" "g \<noteq> 0"
    and iv: "log_interval \<noteq> 0" "eval_interval \<noteq> 0" "save_interval \<noteq> 0"
  shows "\<exists>ev. train_loop global_batch_size micro_batch_size devices log_interval eval_interval
             save_interval step_count iters
           = (ev, step_count + int (length (filter (\<lambda>i. i mod g = 0) iters)), None)
         \<and> count_list ev Optimizer_step = length (filter (\<lambda>i. i mod g = 0) iters)"
proof (induction iters arbitrary: step_count)
  case Nil
  then show ?case by simp
next
  case (Cons iter_num rest)
  obtain ev sc' err where it:
    "train_iteration global_batch_size micro_batch_size devices log_interval eval_interval
       save_interval step_count iter_num = (ev, sc', err)"
    by (cases "train_iteration global_batch_size micro_batch_size devices log_interval
       eval_interval save_interval step_count iter_num") auto
  note st = train_iteration_steps [OF g it]
  from st(6) iv have err: "err = None" by simp
  from Cons.IH [of sc'] obtain ev' where
    rest: "train_loop global_batch_size micro_batch_size devices log_interval eval_interval
             save_interval sc' rest
           = (ev', sc' + int (length (filter (\<lambda>i. i mod g = 0) rest)), None)"
      and cnt: "count_list ev' Optimizer_step = length (filter (\<lambda>i. i mod g = 0) rest)"
    by blast
  show ?case using it err rest cnt st(2) st(5) by simp
qed

text \<open>
  C3. In an iteration of the standard trainer's loop, with \<open>g\<close> the non-zero accumulation
  count \<open>global_batch_size / (micro_batch_size * devices)\<close>: the iteration runs under
  \<open>no_backward_sync\<close> enabled exactly when \<open>iter_num mod g \<noteq> 0\<close>; in that case it makes no
  optimizer step, no gradient clearing and no schedule step and leaves the step counter;
  otherwise it makes exactly one of each and adds one to the step counter; with non-zero
  log, evaluation and save intervals the iteration ends without an exception. For
  \<open>global_batch_size = 64\<close>, \<open>micro_batch_size = 4\<close>, \<open>devices = 2\<close> the count is 8 and the
  iterations with an optimizer step are exactly those divisible by 8.
\<close>

theorem train_iteration_accumulation:
  assumes "train_iteration global_batch_size micro_batch_size devices log_interval
             eval_interval save_interval step_count iter_num = (ev, step_count', err)"
  shows "(\<forall>g. train_args_gradient_accumulation_iters global_batch_size micro_batch_size devices
               = Inr g \<and> g \<noteq> 0 \<longrightarrow>
            No_backward_sync (iter_num mod g \<noteq> 0) \<in> set ev
          \<and> (iter_num mod g \<noteq> 0 \<longrightarrow>
                count_list ev Optimizer_step = 0 \<and> count_list ev Optimizer_zero_grad = 0
              \<and> count_list ev Scheduler_step = 0 \<and> step_count' = step_count)
          \<and> (iter_num mod g = 0 \<longrightarrow>
                count_list ev Optimizer_step = 1 \<and> count_list ev Optimizer_zero_grad = 1
              \<and> count_list ev Scheduler_step = 1 \<and> step_count' = step_count + 1)
          \<and> (log_interval \<noteq> 0 \<and> eval_interval \<noteq> 0 \<and> save_interval \<noteq> 0 \<longrightarrow> err = None))
     \<and> train_args_gradient_accumulation_iters 64 4 2 = Inr 8
     \<and> (global_batch_size = 64 \<and> micro_batch_size = 4 \<and> devices = 2 \<longrightarrow>
           count_list ev Optimizer_step = (if 8 dvd iter_num then 1 else 0)
         \<and> count_list ev Scheduler_step = (if 8 dvd iter_num then 1 else 0)
         \<and> No_backward_sync (\<not> 8 dvd iter_num) \<in> set ev)"
proof (intro conjI allI impI)
  fix g
  assume h: "train_args_gradient_accumulation_iters global_batch_size micro_batch_size devices
               = Inr g \<and> g \<noteq> 0"
  note st = train_iteration_steps [OF conjunct1 [OF h] conjunct2 [OF h] assms]
  show "No_backward_sync (iter_num mod g \<noteq> 0) \<in> set ev" by (rule st(1))
  show "log_interval \<noteq> 0 \<and> eval_interval \<noteq> 0 \<and> save_interval \<noteq> 0 \<Longrightarrow> err = None"
    using st(6) by simp
  {
    assume "iter_num mod g \<noteq> 0"
    then show "count_list ev Optimizer_step = 0" "count_list ev Optimizer_zero_grad = 0"
      "count_list ev Scheduler_step = 0" "step_count' = step_count"
      using st(2-5) by simp_all
  }
  {
    assume "iter_num mod g = 0"
    then show "count_list ev Optimizer_step = 1" "count_list ev Optimizer_zero_grad = 1"
      "count_list ev Scheduler_step = 1" "step_count' = step_count + 1"
      using st(2-5) by simp_all
  }
next
  show g8: "train_args_gradient_accumulation_iters 64 4 2 = Inr 8"
    by (simp add: train_args_gradient_accumulation_iters_def py_floordiv_def)
  assume c: "global_batch_size = 64 \<and> micro_batch_size = 4 \<and> devices = 2"
  have it: "train_iteration 64 4 2 log_interval eval_interval save_interval step_count iter_num
              = (ev, step_count', err)"
    using assms c by simp
  have nz: "(8 :: int) \<noteq> 0" by simp
  note st = train_iteration_steps [OF g8 nz it]
  show "count_list ev Optimizer_step = (if 8 dvd iter_num then 1 else 0)"
    using st(2) by (simp add: dvd_eq_mod_eq_0)
  show "count_list ev Scheduler_step = (if 8 dvd iter_num then 1 else 0)"
    using st(4) by (simp add: dvd_eq_mod_eq_0)
  show "No_backward_sync (\<not> 8 dvd iter_num) \<in> set ev"
    using st(1) by (simp add: dvd_eq_mod_eq_0)
qed

theorem train_iteration_accumulation_witness:
  "train_iteration 64 4 2 1 600 1000 0 8
     = ([Get_batch False, No_backward_sync False, Forward, Backward, Optimizer_step,
         Optimizer_zero_grad, Scheduler_step, Log_iteration], 1, None)
   \<and> train_iteration 64 4 2 1 600 1000 0 3
     = ([Get_batch False, No_backward_sync True, Forward, Backward, Log_iteration], 0, None)
   \<and> train_args_gradient_accumulation_iters 64 4 2 = Inr 8 \<and> (8 :: int) \<noteq> 0
   \<and> (8 :: int) mod 8 = 0 \<and> (3 :: int) mod 8 \<noteq> 0
   \<and> (1 :: int) \<noteq> 0 \<and> (600 :: int) \<noteq> 0 \<and> (1000 :: int) \<noteq> 0
   \<and> count_list [Get_batch False, No_backward_sync False, Forward, Backward, Optimizer_step,
         Optimizer_zero_grad, Scheduler_step, Log_iteration] Optimizer_step = 1
   \<and> count_list [Get_batch False, No_backward_sync True, Forward, Backward, Log_iteration]
         Optimizer_step = 0"
proof -
  let ?ev8 = "[Get_batch False, No_backward_sync False, Forward, Backward, Optimizer_step,
         Optimizer_zero_grad, Scheduler_step, Log_iteration]"
  let ?ev3 = "[Get_batch False, No_backward_sync True, Forward, Backward, Log_iteration]"
  have r8: "train_iteration 64 4 2 1 600 1000 0 8 = (?ev8, 1, None)"
    by (simp add: train_iteration_def train_args_gradient_accumulation_iters_def
        py_floordiv_def py_mod_def)
  have r3: "train_iteration 64 4 2 1 600 1000 0 3 = (?ev3, 0, None)"
    by (simp add: train_iteration_def train_args_gradient_accumulation_iters_def
        py_floordiv_def py_mod_def)
  note t8 = train_iteration_accumulation [OF r8]
  note t3 = train_iteration_accumulation [OF r3]
  note g8 = t8 [THEN conjunct2, THEN conjunct1]
  have nz: "(8 :: int) \<noteq> 0" by simp
  have m8: "(8 :: int) mod 8 = 0" and m3: "(3 :: int) mod 8 \<noteq> 0" by simp_all
  have iv: "(1 :: int) \<noteq> 0" "(600 :: int) \<noteq> 0" "(1000 :: int) \<noteq> 0" by simp_all
  note gen8 = t8 [THEN conjunct1, THEN spec, of 8, THEN mp, OF conjI [OF g8 nz]]
  note gen3 = t3 [THEN conjunct1, THEN spec, of 8, THEN mp, OF conjI [OF g8 nz]]
  note c8 = gen8 [THEN conjunct2, THEN conjunct2, THEN conjunct1, THEN mp, OF m8,
      THEN conjunct1]
  note c3 = gen3 [THEN conjunct2, THEN conjunct1, THEN mp, OF m3, THEN conjunct1]
  show ?thesis by (intro conjI r8 r3 g8 nz m8 m3 iv c8 c3)
qed

subsection \<open>Gradient accumulation in the accelerator-backend trainer\<close>

lemma xla_module_Inr:
  assumes "xla_module devices = Inr G"
  shows "xla_gradient_accumulation_iters G = 1" and "xla_log_interval G = 1"
    and "xla_eval_interval G = 200" and "xla_save_interval G = 200"
    and "xla_batch_size G = 1" and "xla_micro_batch_size G = 1"
    and "xla_warmup_steps G = 100000 div devices" and "devices \<noteq> 0"
  using assms
  by (auto simp: xla_module_def py_floordiv_def Let_def split: if_splits)

lemma xla_module_total: "devices \<noteq> 0 \<Longrightarrow> \<exists>G. xla_module devices = Inr G"
  by (simp add: xla_module_def py_floordiv_def Let_def)

lemma xla_train_iteration_steps:
  assumes "xla_module devices = Inr G"
    and "xla_train_iteration G step_count iter_num = (ev, step_count', err)"
    and "xla_warmup_steps G \<noteq> 0"
  shows "No_backward_sync False \<in> set ev"
    and "count_list ev Optimizer_step = 1"
    and "count_list ev Optimizer_zero_grad = 1"
    and "step_count' = step_count + 1"
    and "err = None"
  using assms(2,3) xla_module_Inr(1-4) [OF assms(1)]
  by (auto simp: xla_train_iteration_def py_mod_def Let_def split: if_splits)


lemma xla_train_loop_steps:
  assumes G: "xla_module devices = Inr G" and w: "xla_warmup_steps G \<noteq> 0"
  shows "\<exists>ev. xla_train_loop G step_count iters = (ev, step_count + int (length iters), None)
         \<and> count_list ev Optimizer_step = length iters
         \<and> count_list ev Optimizer_zero_grad = length iters
         \<and> No_backward_sync True \<notin> set ev"
proof (induction iters arbitrary: step_count)
  case Nil
  then show ?case by simp
next
  case (Cons iter_num rest)
  obtain ev sc' err where it: "xla_train_iteration G step_count iter_num = (ev, sc', err)"
    by (cases "xla_train_iteration G step_count iter_num") auto
  note st = xla_train_iteration_steps [OF G it w]
  have nosync: "No_backward_sync True \<notin> set ev"
    using it w xla_module_Inr(1-4) [OF G]
    by (auto simp: xla_train_iteration_def py_mod_def Let_def split: if_splits)
  from Cons.IH [of sc'] obtain ev' where
    rest: "xla_train_loop G sc' rest = (ev', sc' + int (length rest), None)"
      and cnt: "count_list ev' Optimizer_step = length rest"
        "count_list ev' Optimizer_zero_grad = length rest"
        "No_backward_sync True \<notin> set ev'"
    by blast
  show ?case using it rest cnt st(2-5) nosync by simp
qed


text \<open>
  C9. Once the accelerator-backend module is loaded, \<open>batch_size\<close> and \<open>micro_batch_size\<close>
  are 1 and the accumulation count is 1; \<open>(iter_num + 1) % gradient_accumulation_iters\<close> is
  0 for every iteration, and every iteration (of a run whose \<open>warmup_steps\<close> is not 0, which
  is so for 1 to 100000 devices) runs with backward synchronisation, makes exactly one
  optimizer step and one gradient clearing, adds one to the step counter and ends without
  an exception.
\<close>

theorem xla_every_iteration_steps:
  assumes "xla_module devices = Inr G"
  shows "xla_batch_size G = 1 \<and> xla_micro_batch_size G = 1
     \<and> xla_gradient_accumulation_iters G = 1
     \<and> (\<forall>iter_num. py_mod (iter_num + 1) (xla_gradient_accumulation_iters G) = Inr 0)
     \<and> (\<forall>step_count iter_num ev step_count' err.
           xla_warmup_steps G \<noteq> 0
           \<and> xla_train_iteration G step_count iter_num = (ev, step_count', err) \<longrightarrow>
             No_backward_sync False \<in> set ev
           \<and> count_list ev Optimizer_step = 1 \<and> count_list ev Optimizer_zero_grad = 1
           \<and> step_count' = step_count + 1 \<and> err = None)
     \<and> (0 < devices \<and> devices \<le> 100000 \<longrightarrow> xla_warmup_steps G \<noteq> 0)"
proof (intro conjI allI impI)
  note m = xla_module_Inr [OF assms]
  show "xla_batch_size G = 1" "xla_micro_batch_size G = 1"
    "xla_gradient_accumulation_iters G = 1"
    by (rule m)+
  show "py_mod (iter_num + 1) (xla_gradient_accumulation_iters G) = Inr 0" for iter_num
    by (simp add: m(1) py_mod_def)
  show "xla_warmup_steps G \<noteq> 0" if "0 < devices \<and> devices \<le> 100000"
  proof -
    from that have "0 < 100000 div devices"
      using pos_imp_zdiv_pos_iff [of devices 100000] by simp
    then show ?thesis by (simp add: m(7))
  qed
next
  fix step_count iter_num ev step_count' err
  assume h: "xla_warmup_steps G \<noteq> 0
           \<and> xla_train_iteration G step_count iter_num = (ev, step_count', err)"
  note st = xla_train_iteration_steps [OF assms conjunct2 [OF h] conjunct1 [OF h]]
  show "No_backward_sync False \<in> set ev" "count_list ev Optimizer_step = 1"
    "count_list ev Optimizer_zero_grad = 1" "step_count' = step_count + 1" "err = None"
    by (rule st)+
qed


theorem xla_every_iteration_steps_witness:
  "xla_module 8
     = Inr \<lparr>xla_eval_interval = 200, xla_save_interval = 200, xla_log_interval = 1,
            xla_batch_size = 1, xla_micro_batch_size = 1,
            xla_gradient_accumulation_iters = 1, xla_epoch_size = 50000,
            xla_num_epochs = 5, xla_max_iters = 31250, xla_warmup_steps = 12500\<rparr>
   \<and> (0 :: int) < 8 \<and> (8 :: int) \<le> 100000
   \<and> xla_warmup_steps
        \<lparr>xla_eval_interval = 200, xla_save_interval = 200, xla_log_interval = 1,
            xla_batch_size = 1, xla_micro_batch_size = 1,
            xla_gradient_accumulation_iters = 1, xla_epoch_size = 50000,
            xla_num_epochs = 5, xla_max_iters = 31250, xla_warmup_steps = 12500\<rparr> \<noteq> 0
   \<and> xla_train_iteration
        \<lparr>xla_eval_interval = 200, xla_save_interval = 200, xla_log_interval = 1,
            xla_batch_size = 1, xla_micro_batch_size = 1,
            xla_gradient_accumulation_iters = 1, xla_epoch_size = 50000,
            xla_num_epochs = 5, xla_max_iters = 31250, xla_warmup_steps = 12500\<rparr> 0 0
     = ([Set_lr, Get_batch True, No_backward_sync False, Forward, Mark_step, Backward,
         Mark_step, Optimizer_step, Optimizer_zero_grad, Log_iteration], 1, None)
   \<and> count_list [Set_lr, Get_batch True, No_backward_sync False, Forward, Mark_step, Backward,
         Mark_step, Optimizer_step, Optimizer_zero_grad, Log_iteration] Optimizer_step = 1"
proof -
  let ?G = "\<lparr>xla_eval_interval = 200, xla_save_interval = 200, xla_log_interval = 1,
            xla_batch_size = 1, xla_micro_batch_size = 1,
            xla_gradient_accumulation_iters = 1, xla_epoch_size = 50000,
            xla_num_epochs = 5, xla_max_iters = 31250, xla_warmup_steps = 12500\<rparr>"
  let ?ev = "[Set_lr, Get_batch True, No_backward_sync False, Forward, Mark_step, Backward,
         Mark_step, Optimizer_step, Optimizer_zero_grad, Log_iteration]"
  have m: "xla_module 8 = Inr ?G"
    by (simp add: xla_module_def py_floordiv_def)
  have d: "(0 :: int) < 8" "(8 :: int) \<le> 100000" by simp_all
  have it: "xla_train_iteration ?G 0 0 = (?ev, 1, None)"
    by (simp add: xla_train_iteration_def py_mod_def)
  note main = xla_every_iteration_steps [OF m]
  note w = main [THEN conjunct2, THEN conjunct2, THEN conjunct2, THEN conjunct2,
      THEN conjunct2, THEN mp, OF conjI [OF d]]
  note steps = main [THEN conjunct2, THEN conjunct2, THEN conjunct2, THEN conjunct2,
      THEN conjunct1, THEN spec, THEN spec, THEN spec, THEN spec, THEN spec, THEN mp,
      OF conjI [OF w it]]
  show ?thesis by (intro conjI m d w it steps [THEN conjunct2, THEN conjunct1])
qed

subsection \<open>The response extraction of the generation CLI\<close>

lemma split_sep_not_Nil: "split_sep sep s \<noteq> []"
  by (induction sep s rule: split_sep.induct) (auto split: list.splits)

lemma split_sep_absent:
  "sep \<noteq> [] \<Longrightarrow> \<not> sublist sep s \<Longrightarrow> split_sep sep s = [s]"
proof (induction s)
  case Nil
  then show ?case by simp
next
  case (Cons c cs)
  from Cons.prems(2) have np: "\<not> prefix sep (c # cs)" and ns: "\<not> sublist sep cs"
    by (simp_all add: sublist_Cons_right)
  from Cons.IH [OF Cons.prems(1) ns] np show ?case by simp
qed

lemma prefix_before_butlast:
  assumes "prefix sep (pre @ sep @ post)" and "pre \<noteq> []"
  shows "prefix sep (pre @ butlast sep)"
proof (cases "sep = []")
  case True
  then show ?thesis by simp
next
  case False
  then have eq: "pre @ sep @ post = (pre @ butlast sep) @ (last sep # post)"
    by simp
  have len: "length sep \<le> length (pre @ butlast sep)"
    using assms(2) False by (cases pre) simp_all
  from assms(1) have "prefix sep ((pre @ butlast sep) @ (last sep # post))"
    by (simp only: eq)
  then have "sep = take (length sep) ((pre @ butlast sep) @ (last sep # post))"
    by (metis append_eq_conv_conj prefixE)
  also have "\<dots> = take (length sep) (pre @ butlast sep)"
    using len by simp
  finally have "sep = take (length sep) (pre @ butlast sep)" .
  then show ?thesis by (metis take_is_prefix)
qed

lemma split_sep_first:
  "sep \<noteq> [] \<Longrightarrow> \<not> sublist sep (pre @ butlast sep) \<Longrightarrow>
   split_sep sep (pre @ sep @ post) = pre # split_sep sep post"
proof (induction pre)
  case Nil
  from Nil.prems(1) obtain c cs where sep: "sep @ post = c # cs"
    by (cases sep) auto
  have p: "prefix sep (c # cs)" by (simp add: sep [symmetric])
  have d: "drop (length sep) (c # cs) = post" by (simp add: sep [symmetric])
  have "split_sep sep (c # cs) = [] # split_sep sep (drop (length sep) (c # cs))"
    using Nil.prems(1) p by simp
  then have "split_sep sep (c # cs) = [] # split_sep sep post"
    by (simp only: d)
  then have "split_sep sep (sep @ post) = [] # split_sep sep post"
    by (simp only: sep)
  then show ?case by simp
next
  case (Cons c pre)
  from Cons.prems(2) have ns: "\<not> sublist sep (pre @ butlast sep)"
    and np: "\<not> prefix sep ((c # pre) @ butlast sep)"
    by (simp_all add: sublist_Cons_right)
  have "\<not> prefix sep ((c # pre) @ sep @ post)"
    using np prefix_before_butlast [of sep "c # pre" post] by blast
  then have "split_sep sep ((c # pre) @ sep @ post)
      = (case split_sep sep (pre @ sep @ post) of
           [] \<Rightarrow> [[c]] | part # parts \<Rightarrow> (c # part) # parts)"
    by simp
  also have "\<dots> = (c # pre) # split_sep sep post"
    using Cons.IH [OF Cons.prems(1) ns] by simp
  finally show ?case .
qed

lemma first_occurrence:
  "sep \<noteq> [] \<Longrightarrow> sublist sep s \<Longrightarrow>
   \<exists>pre post. s = pre @ sep @ post \<and> \<not> sublist sep (pre @ butlast sep)"
proof (induction s)
  case Nil
  then show ?case by simp
next
  case (Cons c cs)
  show ?case
  proof (cases "prefix sep (c # cs)")
    case True
    then obtain post where "c # cs = [] @ sep @ post" by (auto simp: prefix_def)
    moreover have "\<not> sublist sep ([] @ butlast sep)"
    proof
      assume "sublist sep ([] @ butlast sep)"
      then obtain ps ss where "butlast sep = ps @ sep @ ss"
        by (auto simp: sublist_def)
      then have "length (butlast sep) = length (ps @ sep @ ss)" by simp
      then have "length sep \<le> length sep - 1" by simp
      moreover have "0 < length sep" using Cons.prems(1) by simp
      ultimately show False by arith
    qed
    ultimately show ?thesis by blast
  next
    case False
    with Cons.prems(2) have "sublist sep cs" by (simp add: sublist_Cons_right)
    from Cons.IH [OF Cons.prems(1) this] obtain pre post where
      cs: "cs = pre @ sep @ post" and ns: "\<not> sublist sep (pre @ butlast sep)"
      by blast
    have "\<not> prefix sep ((c # pre) @ butlast sep)"
    proof
      assume "prefix sep ((c # pre) @ butlast sep)"
      then have "prefix sep (((c # pre) @ butlast sep) @ (last sep # post))"
        by (rule prefix_prefix)
      moreover have "((c # pre) @ butlast sep) @ (last sep # post) = c # cs"
        using Cons.prems(1) cs by simp
      ultimately show False using False by simp
    qed
    with ns have "\<not> sublist sep ((c # pre) @ butlast sep)"
      by (simp add: sublist_Cons_right)
    moreover have "c # cs = (c # pre) @ sep @ post" using cs by simp
    ultimately show ?thesis by blast
  qed
qed


lemma response_marker_not_Nil: "response_marker \<noteq> []"
  by (simp add: response_marker_def)

lemma extract_response_parts:
  "split_sep response_marker output = p0 # p1 # parts \<Longrightarrow>
   extract_response output = Inr (py_strip p1)"
  by (simp add: extract_response_def py_split_def response_marker_not_Nil getitem_def)

lemma extract_response_absent:
  assumes "\<not> sublist response_marker output"
  shows "extract_response output = Inl IndexError"
  using split_sep_absent [OF response_marker_not_Nil assms]
  by (simp add: extract_response_def py_split_def response_marker_not_Nil getitem_def)

lemma extract_response_present:
  assumes "sublist response_marker output"
  shows "\<exists>r. extract_response output = Inr r"
proof -
  from first_occurrence [OF response_marker_not_Nil assms] obtain pre post where
    out: "output = pre @ response_marker @ post"
    and first: "\<not> sublist response_marker (pre @ butlast response_marker)"
    by blast
  obtain p1 parts where rest: "split_sep response_marker post = p1 # parts"
    using split_sep_not_Nil [of response_marker post]
    by (cases "split_sep response_marker post") auto
  have "split_sep response_marker output = pre # p1 # parts"
    using split_sep_first [OF response_marker_not_Nil first, of post] out rest by simp
  from extract_response_parts [OF this] show ?thesis by blast
qed

lemma extract_response_once:
  assumes "\<not> sublist response_marker (pre @ butlast response_marker)"
    and "\<not> sublist response_marker post"
  shows "extract_response (pre @ response_marker @ post) = Inr (py_strip post)"
proof -
  have "split_sep response_marker (pre @ response_marker @ post) = pre # post # []"
    using split_sep_first [OF response_marker_not_Nil assms(1), of post]
      split_sep_absent [OF response_marker_not_Nil assms(2)]
    by simp
  then show ?thesis by (rule extract_response_parts)
qed

lemma extract_response_twice:
  assumes "\<not> sublist response_marker (pre @ butlast response_marker)"
    and "\<not> sublist response_marker (mid @ butlast response_marker)"
  shows "extract_response (pre @ response_marker @ mid @ response_marker @ rest)
           = Inr (py_strip mid)"
proof -
  obtain p parts where r: "split_sep response_marker rest = p # parts"
    using split_sep_not_Nil [of response_marker rest]
    by (cases "split_sep response_marker rest") auto
  have "split_sep response_marker (pre @ response_marker @ mid @ response_marker @ rest)
          = pre # mid # p # parts"
    using split_sep_first [OF response_marker_not_Nil assms(1), of "mid @ response_marker @ rest"]
      split_sep_first [OF response_marker_not_Nil assms(2), of rest] r
    by simp
  then show ?thesis by (rule extract_response_parts)
qed

text \<open>\<open>py_strip\<close> removes whitespace at both ends and nothing else.\<close>

lemma py_strip_trims:
  "\<exists>a b. s = a @ py_strip s @ b \<and> (\<forall>c \<in> set a. py_isspace c) \<and> (\<forall>c \<in> set b. py_isspace c)
     \<and> (py_strip s \<noteq> [] \<longrightarrow> \<not> py_isspace (hd (py_strip s)) \<and> \<not> py_isspace (last (py_strip s)))"
proof -
  define a where "a = takeWhile py_isspace s"
  define t where "t = dropWhile py_isspace s"
  define b where "b = rev (takeWhile py_isspace (rev t))"
  have s: "s = a @ t" by (simp add: a_def t_def)
  have t: "t = py_strip s @ b"
  proof -
    have "rev (dropWhile py_isspace (rev t)) @ rev (takeWhile py_isspace (rev t))
            = rev (takeWhile py_isspace (rev t) @ dropWhile py_isspace (rev t))"
      by (simp only: rev_append)
    also have "\<dots> = rev (rev t)" by (simp only: takeWhile_dropWhile_id)
    also have "\<dots> = t" by simp
    finally have "t = rev (dropWhile py_isspace (rev t)) @ b" by (simp only: b_def)
    then show ?thesis by (simp only: py_strip_def t_def)
  qed
  have sa: "\<forall>c \<in> set a. py_isspace c" by (auto simp: a_def dest: set_takeWhileD)
  have sb: "\<forall>c \<in> set b. py_isspace c" by (auto simp: b_def dest: set_takeWhileD)
  have ends: "\<not> py_isspace (hd (py_strip s)) \<and> \<not> py_isspace (last (py_strip s))"
    if ne: "py_strip s \<noteq> []"
  proof
    have d: "dropWhile py_isspace (rev t) \<noteq> []" using ne by (simp add: py_strip_def t_def)
    then have "\<not> py_isspace (hd (dropWhile py_isspace (rev t)))" by (rule hd_dropWhile)
    then show "\<not> py_isspace (last (py_strip s))"
      using d by (simp add: py_strip_def t_def last_rev)
    have tne: "t \<noteq> []" using t ne by auto
    then have "\<not> py_isspace (hd t)" unfolding t_def by (rule hd_dropWhile)
    moreover have "hd t = hd (py_strip s)" using t ne by (metis hd_append2)
    ultimately show "\<not> py_isspace (hd (py_strip s))" by simp
  qed
  from s t sa sb ends show ?thesis by (metis append.assoc)
qed


text \<open>
  C7, with the part between two markers. When the marker \<open>### Response:\<close> does not occur in the decoded output, the
  extraction raises \<open>IndexError\<close>: the index is not guarded. When it occurs, the extraction
  returns a string: the text between the first occurrence of the marker and the next one
  (or the end of the output when there is no other), stripped of surrounding whitespace.
  So when the marker occurs once, the result is the stripped text that follows it.
\<close>

theorem extract_response_between_markers:
  "(\<not> sublist response_marker output \<longrightarrow> extract_response output = Inl IndexError)
   \<and> (sublist response_marker output \<longrightarrow> (\<exists>r. extract_response output = Inr r))
   \<and> (\<not> sublist response_marker (pre @ butlast response_marker)
        \<and> \<not> sublist response_marker post \<longrightarrow>
          extract_response (pre @ response_marker @ post) = Inr (py_strip post))
   \<and> (\<not> sublist response_marker (pre @ butlast response_marker)
        \<and> \<not> sublist response_marker (mid @ butlast response_marker) \<longrightarrow>
          extract_response (pre @ response_marker @ mid @ response_marker @ rest)
            = Inr (py_strip mid))"
proof (intro conjI impI)
  assume "\<not> sublist response_marker output"
  then show "extract_response output = Inl IndexError" by (rule extract_response_absent)
next
  assume "sublist response_marker output"
  then show "\<exists>r. extract_response output = Inr r" by (rule extract_response_present)
next
  assume "\<not> sublist response_marker (pre @ butlast response_marker)
        \<and> \<not> sublist response_marker post"
  then show "extract_response (pre @ response_marker @ post) = Inr (py_strip post)"
    by (intro extract_response_once) (erule conjunct1, erule conjunct2)
next
  assume "\<not> sublist response_marker (pre @ butlast response_marker)
        \<and> \<not> sublist response_marker (mid @ butlast response_marker)"
  then show "extract_response (pre @ response_marker @ mid @ response_marker @ rest)
            = Inr (py_strip mid)"
    by (intro extract_response_twice) (erule conjunct1, erule conjunct2)
qed

theorem extract_response_between_markers_witness:
  "\<not> sublist response_marker ''no marker''
   \<and> extract_response ''no marker'' = Inl IndexError
   \<and> sublist response_marker (''p'' @ response_marker @ '' ok  '')
   \<and> \<not> sublist response_marker (''p'' @ butlast response_marker)
   \<and> \<not> sublist response_marker '' ok  ''
   \<and> extract_response (''p'' @ response_marker @ '' ok  '') = Inr ''ok''
   \<and> \<not> sublist response_marker ('' a '' @ butlast response_marker)
   \<and> extract_response (''p'' @ response_marker @ '' a '' @ response_marker @ ''b'') = Inr ''a''"
proof -
  have h1: "\<not> sublist response_marker ''no marker''" by code_simp
  have h2: "sublist response_marker (''p'' @ response_marker @ '' ok  '')" by code_simp
  have h3: "\<not> sublist response_marker (''p'' @ butlast response_marker)" by code_simp
  have h4: "\<not> sublist response_marker '' ok  ''" by code_simp
  have h5: "\<not> sublist response_marker ('' a '' @ butlast response_marker)" by code_simp
  have s1: "py_strip '' ok  '' = ''ok''" by code_simp
  have s2: "py_strip '' a '' = ''a''" by code_simp
  note main = extract_response_between_markers
  note a = main [of "''no marker''", THEN conjunct1, THEN mp, OF h1]
  note b = main [of _ "''p''" "'' ok  ''", THEN conjunct2, THEN conjunct2, THEN conjunct1,
      THEN mp, OF conjI [OF h3 h4], unfolded s1]
  note c = main [of _ "''p''" _ "'' a ''" "''b''", THEN conjunct2, THEN conjunct2,
      THEN conjunct2, THEN mp, OF conjI [OF h3 h5], unfolded s2]
  show ?thesis by (intro conjI h1 a h2 h3 h4 b h5 c)
qed

text \<open>
  C7 as stated fails when the marker occurs twice: the printed result is the text between
  the two markers, not the text that follows the first one.
\<close>

theorem extract_response_counterexample:
  "sublist response_marker (''p'' @ response_marker @ '' a '' @ response_marker @ ''b'')
   \<and> \<not> sublist response_marker (''p'' @ butlast response_marker)
   \<and> extract_response (''p'' @ response_marker @ '' a '' @ response_marker @ ''b'')
       = Inr ''a''
   \<and> py_strip ('' a '' @ response_marker @ ''b'') = ''a ### Response:b''
   \<and> ''a'' \<noteq> ''a ### Response:b''"
  by code_simp

subsection \<open>\<open>merge_lora\<close>\<close>

lemma merge_lora_sentinel:
  assumes "is_file fs (checkpoint_dir, ''lit_model.pth.lora'')"
    and "check_valid_checkpoint_dir fs checkpoint_dir = Inr ()"
    and "\<forall>p. pretrained_checkpoint_dir = Some p \<longrightarrow> check_valid_checkpoint_dir fs p = Inr ()"
  shows "merge_lora ext checkpoint_dir pretrained_checkpoint_dir precision fs
           = Inr ([fs], [Already_merged])"
  using assms by (cases pretrained_checkpoint_dir) (simp_all add: merge_lora_def)

lemma merge_lora_sentinel_only:
  assumes "is_file fs (checkpoint_dir, ''lit_model.pth.lora'')"
    and "merge_lora ext checkpoint_dir pretrained_checkpoint_dir precision fs = Inr (tr, out)"
  shows "tr = [fs] \<and> out = [Already_merged]"
  using assms by (auto simp: merge_lora_def split: sum.splits)

lemma merge_lora_full:
  assumes "\<not> is_file fs (checkpoint_dir, ''lit_model.pth.lora'')"
    and "merge_lora ext checkpoint_dir pretrained_checkpoint_dir precision fs = Inr (tr, out)"
  shows "\<exists>original merged.
      fs (checkpoint_dir, ''lit_model.pth'') = Some original
    \<and> fs (checkpoint_dir, ''lit_config.json'') \<noteq> None
    \<and> check_valid_checkpoint_dir fs checkpoint_dir = Inr ()
    \<and> (\<forall>p. pretrained_checkpoint_dir = Some p \<longrightarrow> check_valid_checkpoint_dir fs p = Inr ())
    \<and> tr = [fs,
             fs((checkpoint_dir, ''lit_model.pth.merged'') \<mapsto> merged),
             fs((checkpoint_dir, ''lit_model.pth.merged'') \<mapsto> merged,
                (checkpoint_dir, ''lit_model.pth'') := None,
                (checkpoint_dir, ''lit_model.pth.lora'') \<mapsto> original),
             fs((checkpoint_dir, ''lit_model.pth.merged'') := None,
                (checkpoint_dir, ''lit_model.pth.lora'') \<mapsto> original,
                (checkpoint_dir, ''lit_model.pth'') \<mapsto> merged)]
    \<and> out = [Saved_merged_weights (checkpoint_dir, ''lit_model.pth''),
             Backup_of_lora_weights (checkpoint_dir, ''lit_model.pth.lora'')]"
  using assms
  apply (simp add: merge_lora_def Let_def check_valid_checkpoint_dir_def is_file_def
      torch_save_def shutil_move_def
      split: sum.splits option.splits if_splits prod.splits)
  apply (auto simp: fun_upd_twist)
  done


text \<open>
  \<open>merge_lora\<close> does return past the sentinel check: in a valid directory without the
  sentinel whose metadata loads and names a base directory that holds the pretrained
  weights, when the computation of the merged checkpoint succeeds.
\<close>

lemma merge_lora_returns:
  assumes "check_valid_checkpoint_dir fs checkpoint_dir = Inr ()"
    and "\<forall>p. pretrained_checkpoint_dir = Some p \<longrightarrow> check_valid_checkpoint_dir fs p = Inr ()"
    and "\<not> is_file fs (checkpoint_dir, ''lit_model.pth.lora'')"
    and "load_lora_metadata ext fs checkpoint_dir = Inr (lora_params, base_dir, lora_precision)"
    and "is_file fs (base_dir, ''lit_model.pth'')"
    and "\<forall>p config pretrained lora.
           \<exists>merged. merged_state_dict ext p config lora_params pretrained lora = Inr merged"
  shows "\<exists>tr out. merge_lora ext checkpoint_dir pretrained_checkpoint_dir precision fs
           = Inr (tr, out)"
proof -
  from assms(1) obtain config lora where
    c: "fs (checkpoint_dir, ''lit_config.json'') = Some config"
    and l: "fs (checkpoint_dir, ''lit_model.pth'') = Some lora"
    by (auto simp: check_valid_checkpoint_dir_def is_file_def split: if_splits)
  from assms(5) obtain pretrained where
    p: "fs (base_dir, ''lit_model.pth'') = Some pretrained"
    by (auto simp: is_file_def)
  define prec where "prec = (case precision of Some p \<Rightarrow> YStr p | None \<Rightarrow> lora_precision)"
  from assms(6) obtain merged where
    m: "merged_state_dict ext prec config lora_params pretrained lora = Inr merged"
    by blast
  have pre: "(case pretrained_checkpoint_dir of None \<Rightarrow> Inr ()
              | Some p \<Rightarrow> check_valid_checkpoint_dir fs p) = Inr ()"
    using assms(2) by (cases pretrained_checkpoint_dir) simp_all
  show ?thesis
    using assms(1,3,4) pre c l p m
    by (simp add: merge_lora_def Let_def prec_def [symmetric] torch_save_def shutil_move_def)
qed

lemma merge_lora_leaves_sentinel:
  assumes "merge_lora ext checkpoint_dir pretrained_checkpoint_dir precision fs = Inr (tr, out)"
  shows "is_file (last tr) (checkpoint_dir, ''lit_model.pth.lora'')
    \<and> check_valid_checkpoint_dir (last tr) checkpoint_dir = Inr ()
    \<and> (\<forall>p. pretrained_checkpoint_dir = Some p \<longrightarrow>
          check_valid_checkpoint_dir (last tr) p = Inr ())"
proof (cases "is_file fs (checkpoint_dir, ''lit_model.pth.lora'')")
  case True
  from merge_lora_sentinel_only [OF True assms] have tr: "tr = [fs]" by simp
  from assms have "check_valid_checkpoint_dir fs checkpoint_dir = Inr ()"
    and "\<forall>p. pretrained_checkpoint_dir = Some p \<longrightarrow> check_valid_checkpoint_dir fs p = Inr ()"
    by (auto simp: merge_lora_def split: sum.splits option.splits)
  with True tr show ?thesis by simp
next
  case False
  from merge_lora_full [OF False assms] obtain original merged where
    orig: "fs (checkpoint_dir, ''lit_model.pth'') = Some original"
    and cfg: "fs (checkpoint_dir, ''lit_config.json'') \<noteq> None"
    and pv: "\<forall>p. pretrained_checkpoint_dir = Some p \<longrightarrow> check_valid_checkpoint_dir fs p = Inr ()"
    and tr: "tr = [fs,
             fs((checkpoint_dir, ''lit_model.pth.merged'') \<mapsto> merged),
             fs((checkpoint_dir, ''lit_model.pth.merged'') \<mapsto> merged,
                (checkpoint_dir, ''lit_model.pth'') := None,
                (checkpoint_dir, ''lit_model.pth.lora'') \<mapsto> original),
             fs((checkpoint_dir, ''lit_model.pth.merged'') := None,
                (checkpoint_dir, ''lit_model.pth.lora'') \<mapsto> original,
                (checkpoint_dir, ''lit_model.pth'') \<mapsto> merged)]"
    by blast
  have last: "last tr = fs((checkpoint_dir, ''lit_model.pth.merged'') := None,
                (checkpoint_dir, ''lit_model.pth.lora'') \<mapsto> original,
                (checkpoint_dir, ''lit_model.pth'') \<mapsto> merged)"
    by (simp add: tr)
  have a: "is_file (last tr) (checkpoint_dir, ''lit_model.pth.lora'')"
    by (simp add: last is_file_def)
  have b: "check_valid_checkpoint_dir (last tr) checkpoint_dir = Inr ()"
    using cfg by (simp add: last check_valid_checkpoint_dir_def is_file_def)
  have c: "check_valid_checkpoint_dir (last tr) p = Inr ()"
    if "pretrained_checkpoint_dir = Some p" for p
  proof -
    from pv that have "check_valid_checkpoint_dir fs p = Inr ()" by simp
    then show ?thesis
      by (auto simp: last check_valid_checkpoint_dir_def is_file_def split: if_splits)
  qed
  from a b c show ?thesis by blast
qed

text \<open>
  C1. In a valid checkpoint directory that holds the sentinel \<open>lit_model.pth.lora\<close>,
  \<open>merge_lora\<close> prints that the weights have already been merged and returns with the file
  system as it was. After any run of \<open>merge_lora\<close> that returns, the sentinel exists and a
  second run with the same arguments is such a no-op: it leaves every file, the weights
  file among them, as the first run left it.
\<close>

theorem merge_lora_idempotent:
  "(is_file fs (checkpoint_dir, ''lit_model.pth.lora'')
      \<and> check_valid_checkpoint_dir fs checkpoint_dir = Inr ()
      \<and> (\<forall>p. pretrained_checkpoint_dir = Some p \<longrightarrow> check_valid_checkpoint_dir fs p = Inr ())
    \<longrightarrow> merge_lora ext checkpoint_dir pretrained_checkpoint_dir precision fs
          = Inr ([fs], [Already_merged]))
   \<and> (\<forall>tr out. merge_lora ext checkpoint_dir pretrained_checkpoint_dir precision fs
                  = Inr (tr, out) \<longrightarrow>
          is_file (last tr) (checkpoint_dir, ''lit_model.pth.lora'')
        \<and> merge_lora ext checkpoint_dir pretrained_checkpoint_dir precision (last tr)
            = Inr ([last tr], [Already_merged]))"
proof (intro conjI allI impI)
  assume h: "is_file fs (checkpoint_dir, ''lit_model.pth.lora'')
      \<and> check_valid_checkpoint_dir fs checkpoint_dir = Inr ()
      \<and> (\<forall>p. pretrained_checkpoint_dir = Some p \<longrightarrow> check_valid_checkpoint_dir fs p = Inr ())"
  show "merge_lora ext checkpoint_dir pretrained_checkpoint_dir precision fs
          = Inr ([fs], [Already_merged])"
    by (rule merge_lora_sentinel)
       (rule h [THEN conjunct1] h [THEN conjunct2, THEN conjunct1]
          h [THEN conjunct2, THEN conjunct2])+
next
  fix tr out
  assume run: "merge_lora ext checkpoint_dir pretrained_checkpoint_dir precision fs
                 = Inr (tr, out)"
  note after = merge_lora_leaves_sentinel [OF run]
  show "is_file (last tr) (checkpoint_dir, ''lit_model.pth.lora'')"
    by (rule after [THEN conjunct1])
  show "merge_lora ext checkpoint_dir pretrained_checkpoint_dir precision (last tr)
            = Inr ([last tr], [Already_merged])"
    by (rule merge_lora_sentinel)
       (rule after [THEN conjunct1] after [THEN conjunct2, THEN conjunct1]
          after [THEN conjunct2, THEN conjunct2])+
qed



lemma example_run:
  "merge_lora example_externals ''out'' None None example_fs
     = Inr ([example_fs,
             torch_save example_fs (''out'', ''lit_model.pth.merged'') 105,
             (torch_save example_fs (''out'', ''lit_model.pth.merged'') 105)
               ((''out'', ''lit_model.pth'') := None, (''out'', ''lit_model.pth.lora'') \<mapsto> 5),
             (torch_save example_fs (''out'', ''lit_model.pth.merged'') 105)
               ((''out'', ''lit_model.pth'') := None, (''out'', ''lit_model.pth.lora'') \<mapsto> 5,
                (''out'', ''lit_model.pth.merged'') := None, (''out'', ''lit_model.pth'') \<mapsto> 105)],
            [Saved_merged_weights (''out'', ''lit_model.pth''),
             Backup_of_lora_weights (''out'', ''lit_model.pth.lora'')])"
  by (simp add: merge_lora_def example_fs_def example_externals_def
      check_valid_checkpoint_dir_def is_file_def load_lora_metadata_def
      shutil_move_def torch_save_def)




theorem merge_lora_idempotent_witness:
  "merge_lora example_externals ''out'' None None example_fs
     = Inr ([example_fs,
             torch_save example_fs (''out'', ''lit_model.pth.merged'') 105,
             (torch_save example_fs (''out'', ''lit_model.pth.merged'') 105)
               ((''out'', ''lit_model.pth'') := None, (''out'', ''lit_model.pth.lora'') \<mapsto> 5),
             (torch_save example_fs (''out'', ''lit_model.pth.merged'') 105)
               ((''out'', ''lit_model.pth'') := None, (''out'', ''lit_model.pth.lora'') \<mapsto> 5,
                (''out'', ''lit_model.pth.merged'') := None, (''out'', ''lit_model.pth'') \<mapsto> 105)],
            [Saved_merged_weights (''out'', ''lit_model.pth''),
             Backup_of_lora_weights (''out'', ''lit_model.pth.lora'')])
   \<and> is_file ((torch_save example_fs (''out'', ''lit_model.pth.merged'') 105)
               ((''out'', ''lit_model.pth'') := None, (''out'', ''lit_model.pth.lora'') \<mapsto> 5,
                (''out'', ''lit_model.pth.merged'') := None, (''out'', ''lit_model.pth'') \<mapsto> 105))
        (''out'', ''lit_model.pth.lora'')
   \<and> check_valid_checkpoint_dir
        ((torch_save example_fs (''out'', ''lit_model.pth.merged'') 105)
               ((''out'', ''lit_model.pth'') := None, (''out'', ''lit_model.pth.lora'') \<mapsto> 5,
                (''out'', ''lit_model.pth.merged'') := None, (''out'', ''lit_model.pth'') \<mapsto> 105))
        ''out'' = Inr ()
   \<and> merge_lora example_externals ''out'' None (Some ''bf16-true'')
        ((torch_save example_fs (''out'', ''lit_model.pth.merged'') 105)
               ((''out'', ''lit_model.pth'') := None, (''out'', ''lit_model.pth.lora'') \<mapsto> 5,
                (''out'', ''lit_model.pth.merged'') := None, (''out'', ''lit_model.pth'') \<mapsto> 105))
     = Inr ([(torch_save example_fs (''out'', ''lit_model.pth.merged'') 105)
               ((''out'', ''lit_model.pth'') := None, (''out'', ''lit_model.pth.lora'') \<mapsto> 5,
                (''out'', ''lit_model.pth.merged'') := None, (''out'', ''lit_model.pth'') \<mapsto> 105)],
            [Already_merged])"
proof -
  let ?fs1 = "torch_save example_fs (''out'', ''lit_model.pth.merged'') 105"
  let ?fs2 = "?fs1((''out'', ''lit_model.pth'') := None, (''out'', ''lit_model.pth.lora'') \<mapsto> 5)"
  let ?fs3 = "?fs2((''out'', ''lit_model.pth.merged'') := None, (''out'', ''lit_model.pth'') \<mapsto> 105)"
  let ?tr = "[example_fs, ?fs1, ?fs2, ?fs3]"
  have last: "last ?tr = ?fs3" by simp
  note twice = merge_lora_idempotent [of example_fs "''out''" None example_externals None,
      THEN conjunct2, THEN spec, THEN spec, THEN mp, OF example_run]
  have sentinel: "is_file ?fs3 (''out'', ''lit_model.pth.lora'')"
    using twice [THEN conjunct1] by (simp only: last)
  have valid: "check_valid_checkpoint_dir ?fs3 ''out'' = Inr ()"
    by (simp add: check_valid_checkpoint_dir_def is_file_def torch_save_def example_fs_def)
  have nopre: "\<forall>p. (None :: string option) = Some p \<longrightarrow> check_valid_checkpoint_dir ?fs3 p = Inr ()"
    by simp
  note again = merge_lora_idempotent [of ?fs3 "''out''" None example_externals
      "Some ''bf16-true''", THEN conjunct1, THEN mp, OF conjI [OF sentinel conjI [OF valid nopre]]]
  show ?thesis by (intro conjI example_run sentinel valid again)
qed

end
